theory Spec2Isabelle
  imports Main "HOL-Library.Char_ord" "HOL-Library.List_Lexorder"
begin

unbundle bit_operations_syntax

section \<open>Data model of finance.go\<close>

text \<open>
  \<^verbatim>\<open>type SupportedBackend string\<close> with the two constants \<^verbatim>\<open>YFinBackend\<close> and
  \<^verbatim>\<open>BATSBackend\<close>, and the private base URLs.
\<close>

type_synonym SupportedBackend = string

definition YFinBackend :: SupportedBackend where
  "YFinBackend = ''yahoo''"

definition BATSBackend :: SupportedBackend where
  "BATSBackend = ''bats''"

definition yFinURL :: string where
  "yFinURL = ''https://query2.finance.yahoo.com''"

definition batsURL :: string where
  "batsURL = ''''"

text \<open>
  \<^verbatim>\<open>RemoteError\<close> (lines 316-320). \<^verbatim>\<open>StatusCode\<close> is a Go \<^verbatim>\<open>int\<close>; it is
  modelled as an unbounded integer, no arithmetic is done on it.
\<close>

record RemoteError =
  Msg :: string
  StatusCode :: int
  Body :: string

subsection \<open>fmt.Sprintf("%d", n)\<close>

definition digit_char :: "nat \<Rightarrow> char" where
  "digit_char d = char_of (48 + d)"

function decimal :: "nat \<Rightarrow> string" where
  "decimal n = (if n < 10 then [digit_char n] else decimal (n div 10) @ [digit_char (n mod 10)])"
  by pat_completeness auto
termination
  by (relation "measure id") auto

declare decimal.simps [simp del]

definition fmt_d :: "int \<Rightarrow> string" where
  "fmt_d i = (if i < 0 then CHR ''-'' # decimal (nat (- i)) else decimal (nat i))"

text \<open>
  \<^verbatim>\<open>func (e *RemoteError) Error() string\<close> (lines 322-324):
  \<^verbatim>\<open>fmt.Sprintf("status: %d, detail: %s", e.StatusCode, e.Msg)\<close>.
\<close>

definition Error :: "RemoteError \<Rightarrow> string" where
  "Error e = ''status: '' @ fmt_d (StatusCode e) @ '', detail: '' @ Msg e"

section \<open>The backend registry\<close>

text \<open>
  \<^verbatim>\<open>BackendConfiguration\<close> (lines 95-99). \<^verbatim>\<open>HTTPClient\<close> is a pointer to an
  \<^verbatim>\<open>http.Client\<close>; the model keeps the identity of the client as a number.
\<close>

record BackendConfiguration =
  Type :: SupportedBackend
  URL :: string
  HTTPClient :: nat

text \<open>
  A value of the interface \<^verbatim>\<open>Backend\<close>: a pointer to a \<^verbatim>\<open>BackendConfiguration\<close>
  object on the heap, or some other implementation installed with \<^verbatim>\<open>SetBackend\<close>.
  \<^verbatim>\<open>nil\<close> is \<open>None\<close> of \<open>Backend option\<close>.
\<close>

datatype Backend = ConfigRef nat | OtherImpl nat

text \<open>
  The package variables \<^verbatim>\<open>backends\<close> (fields \<^verbatim>\<open>YFin\<close>, \<^verbatim>\<open>Bats\<close>) and
  \<^verbatim>\<open>httpClient\<close>, with the heap of the configuration objects allocated so far: the
  object at address \<open>p\<close> is \<open>heap ! p\<close>, and \<^verbatim>\<open>&BackendConfiguration{...}\<close>
  allocates at the next address.
\<close>

record registry =
  YFin :: "Backend option"
  Bats :: "Backend option"
  httpClient :: nat
  heap :: "BackendConfiguration list"

definition new_config :: "BackendConfiguration \<Rightarrow> registry \<Rightarrow> Backend \<times> registry" where
  "new_config c g = (ConfigRef (length (heap g)), g\<lparr>heap := heap g @ [c]\<rparr>)"

definition deref :: "registry \<Rightarrow> Backend \<Rightarrow> BackendConfiguration option" where
  "deref g b = (case b of ConfigRef p \<Rightarrow> (if p < length (heap g) then Some (heap g ! p) else None)
                | OtherImpl _ \<Rightarrow> None)"

text \<open>
  \<^verbatim>\<open>GetBackend\<close> (lines 128-155), run without interruption. In each case of the switch
  the entry is read under the read lock and returned when it is not nil; otherwise a new
  configuration is allocated, stored under the write lock and returned. Any other
  identifier falls through to \<^verbatim>\<open>return nil\<close>.
\<close>

definition GetBackend :: "SupportedBackend \<Rightarrow> registry \<Rightarrow> Backend option \<times> registry" where
  "GetBackend backend g =
     (if backend = YFinBackend then
        (case YFin g of
           Some ret \<Rightarrow> (Some ret, g)
         | None \<Rightarrow>
             (case new_config \<lparr>Type = backend, URL = yFinURL, HTTPClient = httpClient g\<rparr> g of
                (p, g') \<Rightarrow> (Some p, g'\<lparr>YFin := Some p\<rparr>)))
      else if backend = BATSBackend then
        (case Bats g of
           Some ret \<Rightarrow> (Some ret, g)
         | None \<Rightarrow>
             (case new_config \<lparr>Type = backend, URL = batsURL, HTTPClient = httpClient g\<rparr> g of
                (p, g') \<Rightarrow> (Some p, g'\<lparr>Bats := Some p\<rparr>)))
      else (None, g))"

text \<open>\<^verbatim>\<open>SetHTTPClient\<close> (lines 110-112) and \<^verbatim>\<open>SetBackend\<close> (lines 158-165).\<close>

definition SetHTTPClient :: "nat \<Rightarrow> registry \<Rightarrow> registry" where
  "SetHTTPClient client g = g\<lparr>httpClient := client\<rparr>"

definition SetBackend :: "SupportedBackend \<Rightarrow> Backend option \<Rightarrow> registry \<Rightarrow> registry" where
  "SetBackend backend b g =
     (if backend = YFinBackend then g\<lparr>YFin := b\<rparr>
      else if backend = BATSBackend then g\<lparr>Bats := b\<rparr>
      else g)"

section \<open>Requests, responses and the transport\<close>

text \<open>
  The parts of \<^verbatim>\<open>url.URL\<close>, \<^verbatim>\<open>http.Request\<close> and \<^verbatim>\<open>http.Response\<close> that
  finance.go reads or writes. A context is kept by its identity. \<^verbatim>\<open>RespBody\<close> is what
  \<^verbatim>\<open>ioutil.ReadAll(res.Body)\<close> yields: the bytes, or the error of the read. Requests,
  clients, contexts and the logger are values here: a nil pointer in their place, on
  which Go panics, is not a value of these types.
\<close>

type_synonym lib_error = string

record url =
  Host :: string
  Path :: string
  RawQuery :: string

record Request =
  Method :: string
  ReqURL :: url
  Header :: "string \<rightharpoonup> string list"
  Ctx :: "nat option"

record Response =
  RespStatusCode :: int
  RespBody :: "lib_error + string"

text \<open>
  The values of Go's \<^verbatim>\<open>error\<close> that finance.go returns: an error handed over by the
  standard library (net/http, io, encoding/json), returned as it is; the wrapper built by
  \<^verbatim>\<open>fmt.Errorf("...%w", err)\<close>, with the text before the verb; and \<^verbatim>\<open>*RemoteError\<close>.
\<close>

datatype error = Lib lib_error | WrapError string error | Remote RemoteError

fun is_RemoteError :: "error \<Rightarrow> bool" where
  "is_RemoteError (Remote _) = True"
| "is_RemoteError _ = False"

text \<open>An argument of \<^verbatim>\<open>Logger.Printf\<close>; a duration is not given a value.\<close>

datatype arg = AStr string | AErr error | ADuration

text \<open>
  The package variables \<^verbatim>\<open>LogLevel\<close>, \<^verbatim>\<open>Logger\<close> (the lines printed so far, each a
  format with its arguments) and \<^verbatim>\<open>yCrumb\<close>, and the network: \<open>sent\<close> lists every
  request executed so far with the client that executed it, and \<open>respond\<close> gives the
  outcome of \<^verbatim>\<open>client.Do(req)\<close> after that history, an error or a response.
\<close>

record world =
  LogLevel :: int
  Logger :: "(string \<times> arg list) list"
  yCrumb :: string
  respond :: "(nat \<times> Request) list \<Rightarrow> nat \<times> Request \<Rightarrow> lib_error + Response"
  sent :: "(nat \<times> Request) list"

text \<open>\<^verbatim>\<open>if LogLevel > n { Logger.Printf(format, args...) }\<close>\<close>

definition logf :: "int \<Rightarrow> string \<Rightarrow> arg list \<Rightarrow> world \<Rightarrow> world" where
  "logf n format args w =
     (if LogLevel w > n then w\<lparr>Logger := Logger w @ [(format, args)]\<rparr> else w)"

text \<open>\<^verbatim>\<open>client.Do(req)\<close>\<close>

definition client_Do :: "nat \<Rightarrow> Request \<Rightarrow> world \<Rightarrow> (lib_error + Response) \<times> world" where
  "client_Do client req w = (respond w (sent w) (client, req), w\<lparr>sent := sent w @ [(client, req)]\<rparr>)"

section \<open>NewRequest\<close>

text \<open>\<^verbatim>\<open>strings.HasPrefix(path, "/")\<close>\<close>

definition HasPrefix_slash :: "string \<Rightarrow> bool" where
  "HasPrefix_slash path = (case path of [] \<Rightarrow> False | c # _ \<Rightarrow> c = CHR ''/'')"

text \<open>
  \<^verbatim>\<open>NewRequest\<close> (lines 187-206). \<^verbatim>\<open>http.NewRequest\<close> is the standard library's; it is
  the parameter \<open>nr\<close>, from a method and a URL string to an error or a request.
\<close>

definition NewRequest ::
  "(string \<Rightarrow> string \<Rightarrow> lib_error + Request) \<Rightarrow> BackendConfiguration \<Rightarrow> string \<Rightarrow> string \<Rightarrow> nat option
     \<Rightarrow> world \<Rightarrow> (error + Request) \<times> world" where
  "NewRequest nr s method path ctx w =
     (let path = (if \<not> HasPrefix_slash path then ''/'' @ path else path);
          path = URL s @ path
      in case nr method path of
           Inl err \<Rightarrow> (Inl (Lib err), logf 0 ''Cannot create api request: %v\<newline>'' [AErr (Lib err)] w)
         | Inr req \<Rightarrow> (Inr (case ctx of None \<Rightarrow> req | Some c \<Rightarrow> req\<lparr>Ctx := Some c\<rparr>), w))"

section \<open>The handshake\<close>

text \<open>\<^verbatim>\<open>setBrowserHeaders\<close> (lines 208-211)\<close>

definition setBrowserHeaders :: "Request \<Rightarrow> Request" where
  "setBrowserHeaders req =
     req\<lparr>Header := (Header req)
        (''Accept'' \<mapsto> [''text/html,application/xhtml+xml,application/xml;q=0.9,*/*''],
         ''User-Agent'' \<mapsto> [''Mozilla/5.0 (X11; Linux x86_64) AppleWebKit/537.36 (KHTML, like Gecko) Chrome/113.0.0.0 Safari/537.36''])\<rparr>"

text \<open>
  \<^verbatim>\<open>getYahooCrumb\<close> (lines 213-246). The body of the first response is read and dropped,
  errors of that read included; the status code of neither response is looked at.
\<close>

definition getYahooCrumb ::
  "(string \<Rightarrow> string \<Rightarrow> lib_error + Request) \<Rightarrow> nat \<Rightarrow> world \<Rightarrow> (error + string) \<times> world" where
  "getYahooCrumb nr client w =
     (case nr ''GET'' ''https://finance.yahoo.com/'' of
        Inl err \<Rightarrow> (Inl (Lib err), w)
      | Inr req \<Rightarrow>
          (case client_Do client (setBrowserHeaders req) w of
             (Inl err, w1) \<Rightarrow> (Inl (Lib err), w1)
           | (Inr resp, w1) \<Rightarrow>
               (case nr ''GET'' ''https://query2.finance.yahoo.com/v1/test/getcrumb'' of
                  Inl err \<Rightarrow> (Inl (Lib err), w1)
                | Inr req \<Rightarrow>
                    (case client_Do client (setBrowserHeaders req) w1 of
                       (Inl err, w2) \<Rightarrow> (Inl (Lib err), w2)
                     | (Inr resp, w2) \<Rightarrow>
                         (case RespBody resp of
                            Inl err \<Rightarrow> (Inl (Lib err), w2)
                          | Inr b \<Rightarrow> (Inr b, w2))))))"

section \<open>Query values of net/url\<close>

text \<open>
  \<^verbatim>\<open>Do\<close> calls \<^verbatim>\<open>req.URL.Query()\<close>, \<^verbatim>\<open>Values.Add\<close> and \<^verbatim>\<open>Values.Encode\<close> of the
  standard library's net/url (Go 1.17 and later). They are written out here as the library
  defines them. \<^verbatim>\<open>url.Values\<close> is a \<^verbatim>\<open>map[string][]string\<close>: a list of keys with their
  values, each key once; \<^verbatim>\<open>v[key]\<close> of an absent key is the empty slice.
\<close>

type_synonym Values = "(string \<times> string list) list"

definition values_of :: "Values \<Rightarrow> string \<Rightarrow> string list" where
  "values_of v key = (case map_of v key of None \<Rightarrow> [] | Some xs \<Rightarrow> xs)"

text \<open>\<^verbatim>\<open>func (v Values) Add(key, value string) { v[key] = append(v[key], value) }\<close>\<close>

fun Add :: "string \<Rightarrow> string \<Rightarrow> Values \<Rightarrow> Values" where
  "Add key val [] = [(key, [val])]"
| "Add key val ((k, xs) # v) = (if k = key then (k, xs @ [val]) # v else (k, xs) # Add key val v)"

text \<open>
  \<^verbatim>\<open>ishex\<close>, \<^verbatim>\<open>unhex\<close>, \<^verbatim>\<open>upperhex\<close> and \<^verbatim>\<open>shouldEscape(c, encodeQueryComponent)\<close>;
  \<open>in_range lo hi c\<close> is the test \<^verbatim>\<open>lo <= c && c <= hi\<close> on bytes.
\<close>

definition in_range :: "char \<Rightarrow> char \<Rightarrow> char \<Rightarrow> bool" where
  "in_range lo hi c \<longleftrightarrow> lo \<le> c \<and> c \<le> hi"

definition ishex :: "char \<Rightarrow> bool" where
  "ishex c \<longleftrightarrow> in_range CHR ''0'' CHR ''9'' c \<or> in_range CHR ''a'' CHR ''f'' c \<or> in_range CHR ''A'' CHR ''F'' c"

definition unhex :: "char \<Rightarrow> nat" where
  "unhex c =
     (if in_range CHR ''0'' CHR ''9'' c then of_char c - of_char CHR ''0''
      else if in_range CHR ''a'' CHR ''f'' c then of_char c - of_char CHR ''a'' + 10
      else if in_range CHR ''A'' CHR ''F'' c then of_char c - of_char CHR ''A'' + 10
      else 0)"

definition upperhex :: string where
  "upperhex = ''0123456789ABCDEF''"

definition shouldEscape :: "char \<Rightarrow> bool" where
  "shouldEscape c =
     (if in_range CHR ''a'' CHR ''z'' c \<or> in_range CHR ''A'' CHR ''Z'' c \<or> in_range CHR ''0'' CHR ''9'' c
      then False
      else if c = CHR ''-'' \<or> c = CHR ''_'' \<or> c = CHR ''.'' \<or> c = CHR ''~'' then False
      else True)"

text \<open>
  \<^verbatim>\<open>QueryEscape\<close>: a space becomes \<^verbatim>\<open>+\<close>, a byte that must be escaped becomes
  \<^verbatim>\<open>%\<close> with \<^verbatim>\<open>upperhex[c>>4]\<close> and \<^verbatim>\<open>upperhex[c&15]\<close>, any other byte is kept.
\<close>

fun QueryEscape :: "string \<Rightarrow> string" where
  "QueryEscape [] = []"
| "QueryEscape (c # s) =
     (if c = CHR '' '' then CHR ''+'' # QueryEscape s
      else if shouldEscape c
        then CHR ''%'' # upperhex ! drop_bit 4 (of_char c :: nat) # upperhex ! ((of_char c :: nat) AND 15) # QueryEscape s
      else c # QueryEscape s)"

text \<open>
  \<^verbatim>\<open>QueryUnescape\<close>: the first pass of \<^verbatim>\<open>unescape\<close> rejects a \<^verbatim>\<open>%\<close> that is not
  followed by two hex digits, with the offending bytes (at most three) as the
  \<^verbatim>\<open>EscapeError\<close>; the second pass decodes. The second pass only runs on a string the
  first has accepted, so its branch for a truncated escape is never taken.
\<close>

fun check_escapes :: "string \<Rightarrow> string option" where
  "check_escapes [] = None"
| "check_escapes (c # s) =
     (if c = CHR ''%'' then
        (case s of
           a # b # rest \<Rightarrow> if ishex a \<and> ishex b then check_escapes rest else Some (take 3 (c # s))
         | _ \<Rightarrow> Some (take 3 (c # s)))
      else check_escapes s)"

fun decode_escapes :: "string \<Rightarrow> string" where
  "decode_escapes [] = []"
| "decode_escapes (c # s) =
     (if c = CHR ''%'' then
        (case s of
           a # b # rest \<Rightarrow> char_of (push_bit 4 (unhex a) OR unhex b) # decode_escapes rest
         | _ \<Rightarrow> [])
      else if c = CHR ''+'' then CHR '' '' # decode_escapes s
      else c # decode_escapes s)"

definition QueryUnescape :: "string \<Rightarrow> string + string" where
  "QueryUnescape s = (case check_escapes s of Some e \<Rightarrow> Inl e | None \<Rightarrow> Inr (decode_escapes s))"

text \<open>\<^verbatim>\<open>strings.Cut(s, sep)\<close> for a separator of one byte\<close>

fun Cut :: "string \<Rightarrow> char \<Rightarrow> string \<times> string \<times> bool" where
  "Cut [] sep = ([], [], False)"
| "Cut (c # s) sep =
     (if c = sep then ([], s, True)
      else (case Cut s sep of (before, after, found) \<Rightarrow> (c # before, after, found)))"

text \<open>
  \<^verbatim>\<open>parseQuery(m, query)\<close>: the loop \<^verbatim>\<open>for query != ""\<close> cuts the next pair off at
  \<^verbatim>\<open>&\<close>; a pair with a semicolon, an empty pair and a pair whose key or value does not
  unescape are skipped, the first error being remembered.
\<close>

datatype url_error = EscapeError string | SemicolonError

function parseQuery :: "Values \<Rightarrow> string \<Rightarrow> url_error option \<Rightarrow> Values \<times> url_error option" where
  "parseQuery m query err =
     (if query = [] then (m, err)
      else (case Cut query CHR ''&'' of (key, rest, _) \<Rightarrow>
        if CHR '';'' \<in> set key then parseQuery m rest (Some SemicolonError)
        else if key = [] then parseQuery m rest err
        else (case Cut key CHR ''='' of (key, val, _) \<Rightarrow>
          (case QueryUnescape key of
             Inl e \<Rightarrow> parseQuery m rest (if err = None then Some (EscapeError e) else err)
           | Inr key \<Rightarrow>
               (case QueryUnescape val of
                  Inl e \<Rightarrow> parseQuery m rest (if err = None then Some (EscapeError e) else err)
                | Inr val \<Rightarrow> parseQuery (Add key val m) rest err)))))"
  by pat_completeness auto
termination
proof -
  have cut: "length a < length s" if "Cut s sep = (b, a, f)" and "s \<noteq> []" for s sep b a f
    using that
  proof (induction s arbitrary: b a f)
    case Nil
    then show ?case by simp
  next
    case (Cons c s)
    show ?case
    proof (cases "c = sep")
      case True
      with Cons.prems show ?thesis by simp
    next
      case False
      obtain b' a' f' where c: "Cut s sep = (b', a', f')" by (cases "Cut s sep") auto
      with Cons.prems False have "a = a'" by simp
      show ?thesis
      proof (cases "s = []")
        case True
        with c \<open>a = a'\<close> show ?thesis by simp
      next
        case False
        with Cons.IH [OF c] \<open>a = a'\<close> show ?thesis by simp
      qed
    qed
  qed
  show ?thesis
    by (relation "measure (\<lambda>(m, query, err). length query)") (auto dest: cut [OF sym])
qed

declare parseQuery.simps [simp del]

text \<open>
  \<^verbatim>\<open>ParseQuery\<close> and \<^verbatim>\<open>URL.Query\<close>, which drops the error:
  \<^verbatim>\<open>v, _ := ParseQuery(u.RawQuery)\<close>.
\<close>

definition ParseQuery :: "string \<Rightarrow> Values \<times> url_error option" where
  "ParseQuery query = parseQuery [] query None"

definition Query :: "url \<Rightarrow> Values" where
  "Query u = fst (ParseQuery (RawQuery u))"

text \<open>
  \<^verbatim>\<open>Values.Encode\<close>: the keys sorted, and for each value of each key
  \<^verbatim>\<open>&\<close> (when the buffer is not empty), the escaped key, \<^verbatim>\<open>=\<close> and the escaped value.
\<close>

definition Encode :: "Values \<Rightarrow> string" where
  "Encode v =
     (if v = [] then []
      else fold (\<lambda>k buf.
             fold (\<lambda>x buf. (if buf \<noteq> [] then buf @ ''&'' else buf) @ QueryEscape k @ ''='' @ QueryEscape x)
               (values_of v k) buf)
           (sort (map fst v)) [])"

section \<open>Do\<close>

text \<open>
  Lines 258-270 of \<^verbatim>\<open>Do\<close>: for the yahoo backend the crumb is fetched when the cache is
  empty, a failure being wrapped and returned, and the cached crumb is added to the query
  of the request. The result is the error with the state, or the request to execute with
  the state.
\<close>

definition authorize ::
  "(string \<Rightarrow> string \<Rightarrow> lib_error + Request) \<Rightarrow> BackendConfiguration \<Rightarrow> Request \<Rightarrow> world
     \<Rightarrow> (error \<times> world) + (Request \<times> world)" where
  "authorize nr s req w =
     (if Type s = YFinBackend then
        (case (if yCrumb w = [] then
                 (case getYahooCrumb nr (HTTPClient s) w of
                    (Inl err, w') \<Rightarrow> Inl (WrapError ''get yahoo crumb err: '' err, w')
                  | (Inr crumb, w') \<Rightarrow> Inr (w'\<lparr>yCrumb := crumb\<rparr>))
               else Inr w) of
           Inl ew \<Rightarrow> Inl ew
         | Inr w' \<Rightarrow>
             Inr (req\<lparr>ReqURL := (ReqURL req)\<lparr>RawQuery := Encode (Add ''crumb'' (yCrumb w') (Query (ReqURL req)))\<rparr>\<rparr>, w'))
      else Inr (req, w))"

text \<open>
  Lines 272-313 of \<^verbatim>\<open>Do\<close>: the request is executed and the body read; a status of 400
  or more gives a \<^verbatim>\<open>RemoteError\<close>; otherwise the body is decoded into \<^verbatim>\<open>v\<close> when
  \<^verbatim>\<open>v\<close> is not nil. \<^verbatim>\<open>json.Unmarshal\<close> is the standard library's; it is the parameter
  \<open>um\<close>, from the bytes and the destination to the error, if any, and the destination as
  the decoder leaves it.
\<close>

definition exchange ::
  "(string \<Rightarrow> 'v \<Rightarrow> lib_error option \<times> 'v) \<Rightarrow> BackendConfiguration \<Rightarrow> Request \<Rightarrow> 'v option \<Rightarrow> world
     \<Rightarrow> error option \<times> 'v option \<times> world" where
  "exchange um s req v w =
     (case client_Do (HTTPClient s) req w of (res, w1) \<Rightarrow>
        (let w2 = logf 2 ''Completed in %v\<newline>'' [ADuration] w1 in
         case res of
           Inl err \<Rightarrow> (Some (Lib err), v, logf 0 ''Request to api failed: %v\<newline>'' [AErr (Lib err)] w2)
         | Inr res \<Rightarrow>
             (case RespBody res of
                Inl err \<Rightarrow> (Some (Lib err), v, logf 0 ''Cannot parse response: %v\<newline>'' [AErr (Lib err)] w2)
              | Inr resBody \<Rightarrow>
                  if RespStatusCode res \<ge> 400 then
                    (Some (Remote \<lparr>Msg = ''error response recieved from upstream api'',
                                   StatusCode = RespStatusCode res,
                                   Body = resBody\<rparr>),
                     v, logf 0 ''API error: %q\<newline>'' [AStr resBody] w2)
                  else
                    (let w3 = logf 2 ''API response: %q\<newline>'' [AStr resBody] w2 in
                     case v of
                       None \<Rightarrow> (None, None, w3)
                     | Some d \<Rightarrow> (case um resBody d of (err, d') \<Rightarrow> (map_option Lib err, Some d', w3))))))"

text \<open>
  \<^verbatim>\<open>Do\<close> (lines 251-314): the request line is logged (lines 252-254), then the two
  parts above run. \<^verbatim>\<open>req\<close> is a pointer and \<^verbatim>\<open>Do\<close> writes its \<^verbatim>\<open>URL.RawQuery\<close>,
  so the request is returned with the error, the destination and the state.
\<close>

definition log_request :: "Request \<Rightarrow> world \<Rightarrow> world" where
  "log_request req w =
     logf 1 ''Requesting %v %v%v\<newline>''
       [AStr (Method req), AStr (Host (ReqURL req)), AStr (Path (ReqURL req))] w"

definition Do ::
  "(string \<Rightarrow> string \<Rightarrow> lib_error + Request) \<Rightarrow> (string \<Rightarrow> 'v \<Rightarrow> lib_error option \<times> 'v)
     \<Rightarrow> BackendConfiguration \<Rightarrow> Request \<Rightarrow> 'v option \<Rightarrow> world
     \<Rightarrow> error option \<times> 'v option \<times> Request \<times> world" where
  "Do nr um s req v w =
     (case authorize nr s req (log_request req w) of
        Inl (err, w') \<Rightarrow> (Some err, v, req, w')
      | Inr (req', w') \<Rightarrow> (case exchange um s req' v w' of (err, v', w'') \<Rightarrow> (err, v', req', w'')))"

section \<open>Two callers of GetBackend\<close>

text \<open>
  \<^verbatim>\<open>GetBackend\<close> holds the read lock while it reads the entry (lines 131-133 and 142-144)
  and the write lock while it allocates and stores a configuration (lines 137-140 and
  148-151); between the two it holds no lock. All accesses to the registry are made under
  the mutex, so a caller is a machine of two atomic steps, and two callers interleave
  their steps.
\<close>

datatype pc = Start | Missed | Done "Backend option"

text \<open>The read-locked section with the test \<^verbatim>\<open>ret != nil\<close>.\<close>

definition read_entry :: "SupportedBackend \<Rightarrow> registry \<Rightarrow> pc" where
  "read_entry backend g =
     (if backend = YFinBackend then (case YFin g of Some ret \<Rightarrow> Done (Some ret) | None \<Rightarrow> Missed)
      else if backend = BATSBackend then (case Bats g of Some ret \<Rightarrow> Done (Some ret) | None \<Rightarrow> Missed)
      else Done None)"

text \<open>The write-locked section; it is only entered for one of the two constants.\<close>

definition store_new :: "SupportedBackend \<Rightarrow> registry \<Rightarrow> Backend \<times> registry" where
  "store_new backend g =
     (if backend = YFinBackend then
        (case new_config \<lparr>Type = backend, URL = yFinURL, HTTPClient = httpClient g\<rparr> g of
           (p, g') \<Rightarrow> (p, g'\<lparr>YFin := Some p\<rparr>))
      else
        (case new_config \<lparr>Type = backend, URL = batsURL, HTTPClient = httpClient g\<rparr> g of
           (p, g') \<Rightarrow> (p, g'\<lparr>Bats := Some p\<rparr>)))"

fun thread_step :: "SupportedBackend \<Rightarrow> pc \<Rightarrow> registry \<Rightarrow> (pc \<times> registry) option" where
  "thread_step backend Start g = Some (read_entry backend g, g)"
| "thread_step backend Missed g = (case store_new backend g of (p, g') \<Rightarrow> Some (Done (Some p), g'))"
| "thread_step backend (Done r) g = None"

text \<open>Two callers resolving the same identifier: one step of either.\<close>

inductive step :: "SupportedBackend \<Rightarrow> registry \<times> pc \<times> pc \<Rightarrow> registry \<times> pc \<times> pc \<Rightarrow> bool"
  for backend :: SupportedBackend where
  first: "thread_step backend p1 g = Some (p1', g') \<Longrightarrow> step backend (g, p1, p2) (g', p1', p2)"
| second: "thread_step backend p2 g = Some (p2', g') \<Longrightarrow> step backend (g, p1, p2) (g', p1, p2')"

text \<open>The configuration that \<^verbatim>\<open>GetBackend\<close> constructs for an identifier.\<close>

definition default_config :: "SupportedBackend \<Rightarrow> registry \<Rightarrow> BackendConfiguration" where
  "default_config backend g =
     \<lparr>Type = backend, URL = (if backend = YFinBackend then yFinURL else batsURL), HTTPClient = httpClient g\<rparr>"

definition entry :: "SupportedBackend \<Rightarrow> registry \<Rightarrow> Backend option" where
  "entry backend g = (if backend = YFinBackend then YFin g else if backend = BATSBackend then Bats g else None)"

section \<open>Auxiliary notions for the proofs\<close>

text \<open>The bytes that separate the pairs and the parts of a pair in a query.\<close>

definition separator :: "char \<Rightarrow> bool" where
  "separator c \<longleftrightarrow> c = CHR ''&'' \<or> c = CHR '';'' \<or> c = CHR ''=''"

fun join_amp :: "string list \<Rightarrow> string" where
  "join_amp [] = []"
| "join_amp [p] = p"
| "join_amp (p # q # ps) = p @ CHR ''&'' # join_amp (q # ps)"

definition enc_pair :: "string \<times> string \<Rightarrow> string" where
  "enc_pair p = QueryEscape (fst p) @ CHR ''='' # QueryEscape (snd p)"

definition pairs_of :: "Values \<Rightarrow> (string \<times> string) list" where
  "pairs_of v = concat (map (\<lambda>k. map (Pair k) (values_of v k)) (sort (map fst v)))"

definition write_pair :: "string \<Rightarrow> string \<Rightarrow> string" where
  "write_pair p buf = (if buf \<noteq> [] then buf @ ''&'' else buf) @ p"

text \<open>
  The invariant of two callers started on a registry \<open>g\<close> whose entry is nil: every
  object allocated since is the default configuration, and the entry and the results
  returned so far point at such objects.
\<close>

definition fresh_ref :: "registry \<Rightarrow> registry \<Rightarrow> Backend option \<Rightarrow> bool" where
  "fresh_ref g g' r = (\<exists>i. r = Some (ConfigRef i) \<and> length (heap g) \<le> i \<and> i < length (heap g'))"

definition pc_ok :: "registry \<Rightarrow> registry \<Rightarrow> pc \<Rightarrow> bool" where
  "pc_ok g g' p = (case p of Done r \<Rightarrow> fresh_ref g g' r | _ \<Rightarrow> True)"

definition reg_inv :: "SupportedBackend \<Rightarrow> registry \<Rightarrow> registry \<Rightarrow> bool" where
  "reg_inv backend g g' \<longleftrightarrow>
     httpClient g' = httpClient g
     \<and> length (heap g) \<le> length (heap g')
     \<and> (\<forall>i. length (heap g) \<le> i \<and> i < length (heap g') \<longrightarrow> heap g' ! i = default_config backend g)
     \<and> (entry backend g' = None \<or> fresh_ref g g' (entry backend g'))"

definition race_inv :: "SupportedBackend \<Rightarrow> registry \<Rightarrow> registry \<times> pc \<times> pc \<Rightarrow> bool" where
  "race_inv backend g st = (case st of (g', p1, p2) \<Rightarrow> reg_inv backend g g' \<and> pc_ok g g' p1 \<and> pc_ok g g' p2)"

text \<open>
  What \<^verbatim>\<open>%d\<close> prints, stated on the string alone: \<open>renders d i\<close> holds when
  \<open>d\<close> is the decimal numeral of \<open>i\<close>, that is a minus sign for a negative number,
  then digits without a leading zero (the single digit \<^verbatim>\<open>0\<close> for zero) whose value in
  base ten is the magnitude of \<open>i\<close>.
\<close>

definition is_digit :: "char \<Rightarrow> bool" where
  "is_digit c \<longleftrightarrow> in_range CHR ''0'' CHR ''9'' c"

definition digit_value :: "char \<Rightarrow> nat" where
  "digit_value c = of_char c - of_char CHR ''0''"

definition numeral_value :: "string \<Rightarrow> nat" where
  "numeral_value ds = foldl (\<lambda>a c. 10 * a + digit_value c) 0 ds"

definition canonical_numeral :: "string \<Rightarrow> bool" where
  "canonical_numeral ds \<longleftrightarrow> ds \<noteq> [] \<and> list_all is_digit ds \<and> (hd ds = CHR ''0'' \<longrightarrow> ds = ''0'')"

definition renders :: "string \<Rightarrow> int \<Rightarrow> bool" where
  "renders d i =
     (case d of
        [] \<Rightarrow> False
      | c # ds \<Rightarrow>
          if c = CHR ''-'' then i < 0 \<and> canonical_numeral ds \<and> int (numeral_value ds) = - i
          else 0 \<le> i \<and> canonical_numeral d \<and> int (numeral_value d) = i)"

text \<open>
  The pairs of a raw query as \<^verbatim>\<open>parseQuery\<close> sees them: \<open>split_amp\<close> cuts the
  string at every \<^verbatim>\<open>&\<close>, and \<open>pair_of\<close> gives the key and value of a piece, or
  nothing for a piece that is empty, holds a semicolon, or has a malformed escape in its
  key or value.
\<close>

fun split_amp :: "string \<Rightarrow> string list" where
  "split_amp [] = [[]]"
| "split_amp (c # s) =
     (if c = CHR ''&'' then [] # split_amp s
      else (case split_amp s of [] \<Rightarrow> [[c]] | p # ps \<Rightarrow> (c # p) # ps))"

definition pair_of :: "string \<Rightarrow> (string \<times> string) option" where
  "pair_of piece =
     (if CHR '';'' \<in> set piece \<or> piece = [] then None
      else (case Cut piece CHR ''='' of (key, val, _) \<Rightarrow>
        (case QueryUnescape key of
           Inl _ \<Rightarrow> None
         | Inr key \<Rightarrow> (case QueryUnescape val of Inl _ \<Rightarrow> None | Inr val \<Rightarrow> Some (key, val)))))"

definition add_piece :: "string \<Rightarrow> Values \<Rightarrow> Values" where
  "add_piece piece m = (case pair_of piece of None \<Rightarrow> m | Some (key, val) \<Rightarrow> Add key val m)"

text \<open>
  A caller that makes one call of \<^verbatim>\<open>Do\<close> after another; the errors are collected and
  the state is passed on.
\<close>

fun Do_calls ::
  "(string \<Rightarrow> string \<Rightarrow> lib_error + Request) \<Rightarrow> (string \<Rightarrow> 'v \<Rightarrow> lib_error option \<times> 'v)
     \<Rightarrow> (BackendConfiguration \<times> Request \<times> 'v option) list \<Rightarrow> world \<Rightarrow> error option list \<times> world" where
  "Do_calls nr um [] w = ([], w)"
| "Do_calls nr um ((s, req, v) # calls) w =
     (case Do nr um s req v w of (err, v', req', w') \<Rightarrow>
        (case Do_calls nr um calls w' of (errs, w'') \<Rightarrow> (err # errs, w'')))"

text \<open>The request with the crumb added to its query, as lines 267-269 leave it.\<close>

definition with_crumb :: "string \<Rightarrow> Request \<Rightarrow> Request" where
  "with_crumb crumb req =
     req\<lparr>ReqURL := (ReqURL req)\<lparr>RawQuery := Encode (Add ''crumb'' crumb (Query (ReqURL req)))\<rparr>\<rparr>"

section \<open>Stubs for concrete runs\<close>

text \<open>
  A stand-in for \<^verbatim>\<open>http.NewRequest\<close> that accepts every URL and keeps the part before
  the first \<^verbatim>\<open>?\<close> as the path and the rest as the raw query; a stand-in for
  \<^verbatim>\<open>json.Unmarshal\<close> into an integer that knows one document; and a transport
  that gives the answers of a script in turn, and a transport error once the script is
  used up.
\<close>

definition stub_NewRequest :: "string \<Rightarrow> string \<Rightarrow> lib_error + Request" where
  "stub_NewRequest method u =
     (case Cut u CHR ''?'' of (before, after, _) \<Rightarrow>
        Inr \<lparr>Method = method, ReqURL = \<lparr>Host = [], Path = before, RawQuery = after\<rparr>,
             Header = Map.empty, Ctx = None\<rparr>)"

definition stub_Unmarshal :: "string \<Rightarrow> int \<Rightarrow> lib_error option \<times> int" where
  "stub_Unmarshal b d = (if b = ''1'' then (None, 1) else (Some ''invalid character'', d))"

definition stub_world :: "string \<Rightarrow> (lib_error + Response) list \<Rightarrow> world" where
  "stub_world crumb answers =
     \<lparr>LogLevel = 0, Logger = [], yCrumb = crumb,
      respond = (\<lambda>history call.
        if length history < length answers then answers ! length history else Inl ''connection refused''),
      sent = []\<rparr>"

definition yahoo :: BackendConfiguration where
  "yahoo = \<lparr>Type = YFinBackend, URL = yFinURL, HTTPClient = 0\<rparr>"

definition bats :: BackendConfiguration where
  "bats = \<lparr>Type = BATSBackend, URL = batsURL, HTTPClient = 0\<rparr>"

definition quote_request :: Request where
  "quote_request =
     \<lparr>Method = ''GET'', ReqURL = \<lparr>Host = ''query2.finance.yahoo.com'', Path = ''/v7/finance/quote'', RawQuery = ''symbols=AAPL''\<rparr>,
      Header = Map.empty, Ctx = None\<rparr>"

section \<open>Theorems\<close>

subsection \<open>RemoteError.Error\<close>

lemma fmt_d_examples:
  "fmt_d 404 = ''404''" "fmt_d 0 = ''0''" "fmt_d (- 7) = ''-7''"
  by code_simp+

lemma Error_example:
  "Error \<lparr>Msg = ''error response recieved from upstream api'', StatusCode = 404, Body = ''not found''\<rparr>
     = ''status: 404, detail: error response recieved from upstream api''"
  by (simp add: Error_def fmt_d_examples)

lemma digit_char_all:
  "\<forall>d \<in> set [0..<10]. is_digit (digit_char d) \<and> digit_value (digit_char d) = d
      \<and> (digit_char d = CHR ''0'' \<longleftrightarrow> d = 0) \<and> digit_char d \<noteq> CHR ''-''"
  by code_simp

lemma digit_char_props:
  assumes "d < 10"
  shows "is_digit (digit_char d)" and "digit_value (digit_char d) = d"
    and "digit_char d = CHR ''0'' \<longleftrightarrow> d = 0" and "digit_char d \<noteq> CHR ''-''"
  using assms digit_char_all by auto

lemma numeral_value_snoc: "numeral_value (ds @ [c]) = 10 * numeral_value ds + digit_value c"
  by (simp add: numeral_value_def)

lemma decimal_nonempty: "decimal n \<noteq> []"
  by (subst decimal.simps) simp

lemma decimal_digits: "list_all is_digit (decimal n)"
proof (induction n rule: decimal.induct)
  case (1 n)
  show ?case
  proof (cases "n < 10")
    case True
    then show ?thesis by (subst decimal.simps) (simp add: digit_char_props)
  next
    case False
    with 1 show ?thesis by (subst decimal.simps) (simp add: digit_char_props)
  qed
qed

lemma numeral_value_decimal: "numeral_value (decimal n) = n"
proof (induction n rule: decimal.induct)
  case (1 n)
  show ?case
  proof (cases "n < 10")
    case True
    then show ?thesis by (subst decimal.simps) (simp add: numeral_value_def digit_char_props)
  next
    case False
    with 1 show ?thesis
      by (subst decimal.simps) (simp add: numeral_value_snoc digit_char_props)
  qed
qed

lemma decimal_leading_zero: "hd (decimal n) = CHR ''0'' \<Longrightarrow> n = 0"
proof (induction n rule: decimal.induct)
  case (1 n)
  show ?case
  proof (cases "n < 10")
    case True
    with "1.prems" show ?thesis by (subst (asm) decimal.simps) (simp add: digit_char_props)
  next
    case False
    with "1.prems" have "hd (decimal (n div 10)) = CHR ''0''"
      by (subst (asm) decimal.simps) (simp add: decimal_nonempty)
    with 1 False have "n div 10 = 0" by simp
    with False show ?thesis by simp
  qed
qed

lemma decimal_zero: "decimal 0 = ''0''"
  by code_simp

lemma canonical_decimal: "canonical_numeral (decimal n)"
  using decimal_leading_zero [of n]
  by (auto simp: canonical_numeral_def decimal_nonempty decimal_digits decimal_zero)

lemma decimal_no_sign: "hd (decimal n) \<noteq> CHR ''-''"
proof -
  have "is_digit (hd (decimal n))"
    using decimal_digits [of n] decimal_nonempty [of n] by (cases "decimal n") simp_all
  then show ?thesis by (auto simp: is_digit_def in_range_def)
qed

lemma fmt_d_renders: "renders (fmt_d i) i"
proof (cases "i < 0")
  case True
  then show ?thesis
    by (simp add: renders_def fmt_d_def canonical_decimal numeral_value_decimal)
next
  case False
  obtain c ds where d: "decimal (nat i) = c # ds"
    using decimal_nonempty [of "nat i"] by (cases "decimal (nat i)") auto
  with decimal_no_sign [of "nat i"] have "c \<noteq> CHR ''-''" by simp
  with False d canonical_decimal [of "nat i"] numeral_value_decimal [of "nat i"]
  show ?thesis by (simp add: renders_def fmt_d_def)
qed

lemma is_digit_value:
  assumes "is_digit c"
  shows "digit_value c < 10" and "digit_char (digit_value c) = c"
proof -
  let ?n = "of_char c :: nat"
  from assms have r: "48 \<le> ?n" "?n \<le> 57"
    by (simp_all add: is_digit_def in_range_def less_eq_char_def)
  then show "digit_value c < 10" by (simp add: digit_value_def)
  have "char_of (48 + (?n - 48)) = c" using r by simp
  then show "digit_char (digit_value c) = c" by (simp add: digit_char_def digit_value_def)
qed

lemma decimal_numeral_value:
  "canonical_numeral ds \<Longrightarrow> decimal (numeral_value ds) = ds"
proof (induction ds rule: rev_induct)
  case Nil
  then show ?case by (simp add: canonical_numeral_def)
next
  case (snoc c ds)
  from snoc.prems have c: "is_digit c" and all: "list_all is_digit ds"
    by (simp_all add: canonical_numeral_def)
  show ?case
  proof (cases "ds = []")
    case True
    with c show ?thesis
      by (subst decimal.simps) (simp add: numeral_value_def is_digit_value)
  next
    case False
    with snoc.prems have lead: "hd ds \<noteq> CHR ''0''"
      by (cases ds) (auto simp: canonical_numeral_def)
    with False all have can: "canonical_numeral ds" by (simp add: canonical_numeral_def)
    then have IH: "decimal (numeral_value ds) = ds" by (rule snoc.IH)
    have pos: "numeral_value ds \<noteq> 0"
    proof
      assume "numeral_value ds = 0"
      with IH have "ds = ''0''" by (simp add: decimal_zero)
      with lead show False by simp
    qed
    let ?n = "numeral_value (ds @ [c])"
    have n: "?n = 10 * numeral_value ds + digit_value c" by (rule numeral_value_snoc)
    with pos have big: "\<not> ?n < 10" by simp
    have dv: "?n div 10 = numeral_value ds" "?n mod 10 = digit_value c"
      using n is_digit_value(1) [OF c] by simp_all
    show ?thesis
      by (subst decimal.simps) (simp add: big dv IH is_digit_value(2) [OF c] del: numeral_value_snoc)
  qed
qed

lemma renders_unique:
  assumes "renders d i"
  shows "d = fmt_d i"
proof (cases d)
  case Nil
  with assms show ?thesis by (simp add: renders_def)
next
  case (Cons c ds)
  show ?thesis
  proof (cases "c = CHR ''-''")
    case True
    with assms Cons have neg: "i < 0" and can: "canonical_numeral ds" and v: "int (numeral_value ds) = - i"
      by (simp_all add: renders_def)
    from v have "nat (- i) = numeral_value ds" by simp
    with decimal_numeral_value [OF can] neg Cons True show ?thesis by (simp add: fmt_d_def)
  next
    case False
    with assms Cons have nn: "0 \<le> i" and can: "canonical_numeral d" and v: "int (numeral_value d) = i"
      by (simp_all add: renders_def)
    from v have "nat i = numeral_value d" by simp
    with decimal_numeral_value [OF can] nn show ?thesis by (simp add: fmt_d_def)
  qed
qed

text \<open>
  C10. For every \<^verbatim>\<open>RemoteError\<close> value the string returned by \<^verbatim>\<open>Error()\<close> is
  \<^verbatim>\<open>"status: "\<close>, then the decimal numeral of \<^verbatim>\<open>StatusCode\<close>, then
  \<^verbatim>\<open>", detail: "\<close> and \<^verbatim>\<open>Msg\<close>. The numeral is pinned down by \<open>renders\<close>: the
  string printed for the status renders it, and any string that renders the status gives
  the same message. The message does not depend on \<^verbatim>\<open>Body\<close>, which stays readable
  as a field.
\<close>

theorem RemoteError_Error_format:
  "Error e = ''status: '' @ fmt_d (StatusCode e) @ '', detail: '' @ Msg e
   \<and> renders (fmt_d (StatusCode e)) (StatusCode e)
   \<and> (\<forall>d. renders d (StatusCode e) \<longrightarrow> Error e = ''status: '' @ d @ '', detail: '' @ Msg e)
   \<and> Error (e\<lparr>Body := b\<rparr>) = Error e
   \<and> Body (e\<lparr>Body := b\<rparr>) = b"
  using renders_unique [of _ "StatusCode e"] by (auto simp: Error_def fmt_d_renders)

theorem RemoteError_Error_format_witness:
  "renders ''404'' 404
   \<and> Error \<lparr>Msg = ''error response recieved from upstream api'', StatusCode = 404, Body = ''not found''\<rparr>
       = ''status: 404, detail: error response recieved from upstream api''
   \<and> Error \<lparr>Msg = ''error response recieved from upstream api'', StatusCode = 404, Body = ''''\<rparr>
       = ''status: 404, detail: error response recieved from upstream api''"
proof -
  let ?e = "\<lparr>Msg = ''error response recieved from upstream api'', StatusCode = 404, Body = ''not found''\<rparr>"
  have r: "renders ''404'' 404" by code_simp
  note t = RemoteError_Error_format [of ?e "[]"]
  from t have "\<forall>d. renders d (StatusCode ?e) \<longrightarrow> Error ?e = ''status: '' @ d @ '', detail: '' @ Msg ?e"
    by blast
  with r have 1: "Error ?e = ''status: 404, detail: error response recieved from upstream api''"
    by simp
  from t have 2: "Error (?e\<lparr>Body := []\<rparr>) = Error ?e" by blast
  from r 1 2 show ?thesis by simp
qed

subsection \<open>GetBackend\<close>

text \<open>
  C8. For every identifier other than \<^verbatim>\<open>YFinBackend\<close> and \<^verbatim>\<open>BATSBackend\<close>,
  \<^verbatim>\<open>GetBackend\<close> returns nil, and it neither allocates a configuration nor changes the
  registry.
\<close>

theorem GetBackend_unrecognized:
  assumes "backend \<noteq> YFinBackend" and "backend \<noteq> BATSBackend"
  shows "GetBackend backend g = (None, g)"
  using assms by (simp add: GetBackend_def)

theorem GetBackend_unrecognized_witness:
  "GetBackend ''nasdaq'' \<lparr>YFin = None, Bats = None, httpClient = 0, heap = []\<rparr>
     = (None, \<lparr>YFin = None, Bats = None, httpClient = 0, heap = []\<rparr>)"
  using GetBackend_unrecognized [of "''nasdaq''" "\<lparr>YFin = None, Bats = None, httpClient = 0, heap = []\<rparr>"]
  by (simp add: YFinBackend_def BATSBackend_def)

subsection \<open>NewRequest\<close>

lemma HasPrefix_slash_iff: "HasPrefix_slash path \<longleftrightarrow> (\<exists>rest. path = CHR ''/'' # rest)"
  by (cases path) (simp_all add: HasPrefix_slash_def)

text \<open>
  C5. For every path, \<^verbatim>\<open>NewRequest\<close> builds the request from the base URL followed by
  the path: with \<^verbatim>\<open>/\<close> put between them when the path does not start with \<^verbatim>\<open>/\<close>,
  and with nothing added when it does. The string is handed to \<^verbatim>\<open>http.NewRequest\<close>,
  whose error or request (with the context bound when one is given) is the result.
\<close>

theorem NewRequest_url:
  "(\<not> HasPrefix_slash path \<longrightarrow>
      fst (NewRequest nr s method path ctx w)
        = (case nr method (URL s @ ''/'' @ path) of
             Inl err \<Rightarrow> Inl (Lib err)
           | Inr req \<Rightarrow> Inr (case ctx of None \<Rightarrow> req | Some c \<Rightarrow> req\<lparr>Ctx := Some c\<rparr>)))
   \<and> (HasPrefix_slash path \<longrightarrow>
      fst (NewRequest nr s method path ctx w)
        = (case nr method (URL s @ path) of
             Inl err \<Rightarrow> Inl (Lib err)
           | Inr req \<Rightarrow> Inr (case ctx of None \<Rightarrow> req | Some c \<Rightarrow> req\<lparr>Ctx := Some c\<rparr>)))"
  by (simp add: NewRequest_def split: sum.splits)

theorem NewRequest_url_witness:
  "\<not> HasPrefix_slash ''v7/finance/quote''
   \<and> Path (ReqURL (projr (fst (NewRequest stub_NewRequest yahoo ''GET'' ''v7/finance/quote'' None (stub_world [] [])))))
       = ''https://query2.finance.yahoo.com/v7/finance/quote''
   \<and> HasPrefix_slash ''/v7/finance/quote''
   \<and> Path (ReqURL (projr (fst (NewRequest stub_NewRequest yahoo ''GET'' ''/v7/finance/quote'' None (stub_world [] [])))))
       = ''https://query2.finance.yahoo.com/v7/finance/quote''"
  using NewRequest_url [of "''v7/finance/quote''" stub_NewRequest yahoo "''GET''" None "stub_world [] []"]
        NewRequest_url [of "''/v7/finance/quote''" stub_NewRequest yahoo "''GET''" None "stub_world [] []"]
  by (simp add: HasPrefix_slash_def stub_NewRequest_def yahoo_def yFinURL_def)

subsection \<open>getYahooCrumb\<close>

text \<open>
  The handshake does not look at a status code: with 404 at the first step and 429 at
  the second, it returns the second body as the token and no error.
\<close>

theorem getYahooCrumb_status_counterexample:
  "fst (getYahooCrumb stub_NewRequest 0
          (stub_world [] [Inr \<lparr>RespStatusCode = 404, RespBody = Inr ''Not Found''\<rparr>,
                          Inr \<lparr>RespStatusCode = 429, RespBody = Inr ''Too Many Requests''\<rparr>]))
     = Inr ''Too Many Requests''"
  by (simp add: getYahooCrumb_def client_Do_def stub_world_def stub_NewRequest_def)

text \<open>
  C1, amended. The handshake returns the error, and no token, whenever the first GET or the
  second GET suffers a transport error, or the second body cannot be read. The status of
  neither response is inspected: whenever both responses arrive and the second body is
  read, that body is returned as the token.
\<close>

theorem getYahooCrumb_aborts:
  assumes "nr ''GET'' ''https://finance.yahoo.com/'' = Inr r1"
    and "nr ''GET'' ''https://query2.finance.yahoo.com/v1/test/getcrumb'' = Inr r2"
  shows "(\<forall>e. respond w (sent w) (client, setBrowserHeaders r1) = Inl e \<longrightarrow>
            fst (getYahooCrumb nr client w) = Inl (Lib e))
       \<and> (\<forall>resp1 e. respond w (sent w) (client, setBrowserHeaders r1) = Inr resp1
            \<and> respond w (sent w @ [(client, setBrowserHeaders r1)]) (client, setBrowserHeaders r2) = Inl e \<longrightarrow>
            fst (getYahooCrumb nr client w) = Inl (Lib e))
       \<and> (\<forall>resp1 resp2 b. respond w (sent w) (client, setBrowserHeaders r1) = Inr resp1
            \<and> respond w (sent w @ [(client, setBrowserHeaders r1)]) (client, setBrowserHeaders r2) = Inr resp2
            \<and> RespBody resp2 = Inr b \<longrightarrow>
            fst (getYahooCrumb nr client w) = Inr b)
       \<and> (\<forall>resp1 resp2 e. respond w (sent w) (client, setBrowserHeaders r1) = Inr resp1
            \<and> respond w (sent w @ [(client, setBrowserHeaders r1)]) (client, setBrowserHeaders r2) = Inr resp2
            \<and> RespBody resp2 = Inl e \<longrightarrow>
            fst (getYahooCrumb nr client w) = Inl (Lib e))"
  using assms by (simp add: getYahooCrumb_def client_Do_def)

theorem getYahooCrumb_aborts_witness:
  "fst (getYahooCrumb stub_NewRequest 0 (stub_world [] [Inl ''dial tcp: timeout''])) = Inl (Lib ''dial tcp: timeout'')
   \<and> fst (getYahooCrumb stub_NewRequest 0
            (stub_world [] [Inr \<lparr>RespStatusCode = 200, RespBody = Inr ''<html>''\<rparr>, Inl ''EOF''])) = Inl (Lib ''EOF'')
   \<and> fst (getYahooCrumb stub_NewRequest 0
            (stub_world [] [Inr \<lparr>RespStatusCode = 200, RespBody = Inr ''<html>''\<rparr>,
                            Inr \<lparr>RespStatusCode = 200, RespBody = Inr ''abc''\<rparr>])) = Inr ''abc''
   \<and> fst (getYahooCrumb stub_NewRequest 0
            (stub_world [] [Inr \<lparr>RespStatusCode = 200, RespBody = Inr ''<html>''\<rparr>,
                            Inr \<lparr>RespStatusCode = 200, RespBody = Inl ''unexpected EOF''\<rparr>])) = Inl (Lib ''unexpected EOF'')"
proof -
  let ?r1 = "projr (stub_NewRequest ''GET'' ''https://finance.yahoo.com/'')"
  let ?r2 = "projr (stub_NewRequest ''GET'' ''https://query2.finance.yahoo.com/v1/test/getcrumb'')"
  have n1: "stub_NewRequest ''GET'' ''https://finance.yahoo.com/'' = Inr ?r1"
    by (simp add: stub_NewRequest_def)
  have n2: "stub_NewRequest ''GET'' ''https://query2.finance.yahoo.com/v1/test/getcrumb'' = Inr ?r2"
    by (simp add: stub_NewRequest_def)
  show ?thesis
    using getYahooCrumb_aborts [where nr = stub_NewRequest and client = 0
          and w = "stub_world [] [Inl ''dial tcp: timeout'']", OF n1 n2]
      getYahooCrumb_aborts [where nr = stub_NewRequest and client = 0
          and w = "stub_world [] [Inr \<lparr>RespStatusCode = 200, RespBody = Inr ''<html>''\<rparr>, Inl ''EOF'']", OF n1 n2]
      getYahooCrumb_aborts [where nr = stub_NewRequest and client = 0
          and w = "stub_world [] [Inr \<lparr>RespStatusCode = 200, RespBody = Inr ''<html>''\<rparr>,
                                  Inr \<lparr>RespStatusCode = 200, RespBody = Inr ''abc''\<rparr>]", OF n1 n2]
      getYahooCrumb_aborts [where nr = stub_NewRequest and client = 0
          and w = "stub_world [] [Inr \<lparr>RespStatusCode = 200, RespBody = Inr ''<html>''\<rparr>,
                                  Inr \<lparr>RespStatusCode = 200, RespBody = Inl ''unexpected EOF''\<rparr>]", OF n1 n2]
    by (simp add: stub_world_def)
qed

subsection \<open>Query values\<close>

lemma hex_digits_all:
  "\<forall>d \<in> set [0..<16]. unhex (upperhex ! d) = d \<and> ishex (upperhex ! d)
      \<and> upperhex ! d \<noteq> CHR ''&'' \<and> upperhex ! d \<noteq> CHR '';'' \<and> upperhex ! d \<noteq> CHR ''=''"
  by code_simp

lemma hex_digit:
  assumes "d < 16"
  shows "unhex (upperhex ! d) = d" and "ishex (upperhex ! d)"
    and "upperhex ! d \<noteq> CHR ''&''" and "upperhex ! d \<noteq> CHR '';''" and "upperhex ! d \<noteq> CHR ''=''"
  using assms hex_digits_all by auto

lemma nibbles:
  fixes n :: nat
  shows "drop_bit 4 n = n div 16" and "n AND 15 = n mod 16"
proof -
  show "drop_bit 4 n = n div 16" by (simp add: drop_bit_eq_div)
  have "n AND mask 4 = take_bit 4 n" by (simp add: take_bit_eq_mask)
  then show "n AND 15 = n mod 16" by (simp add: take_bit_eq_mod mask_eq_exp_minus_1)
qed

lemma join_nibbles_all:
  "\<forall>a \<in> set [0..<16]. \<forall>b \<in> set [0..<16]. push_bit 4 a OR b = 16 * a + (b::nat)"
  by code_simp

lemma join_nibbles:
  fixes a b :: nat
  assumes "a < 16" "b < 16"
  shows "push_bit 4 a OR b = 16 * a + b"
  using assms join_nibbles_all by auto

lemma hex_roundtrip:
  "char_of (push_bit 4 (unhex (upperhex ! drop_bit 4 (of_char c :: nat))) OR unhex (upperhex ! ((of_char c :: nat) AND 15))) = c"
proof -
  let ?n = "of_char c :: nat"
  have n: "?n < 256" by simp
  have hi: "?n div 16 < 16" using n by (simp add: less_mult_imp_div_less)
  have lo: "?n mod 16 < 16" by simp
  show ?thesis
    using hi lo by (simp add: nibbles hex_digit join_nibbles)
qed


lemma nibble_bounds:
  "drop_bit 4 (of_char c :: nat) < 16" "(of_char c :: nat) AND 15 < 16"
proof -
  have "(of_char c :: nat) < 256" by simp
  then show "drop_bit 4 (of_char c :: nat) < 16" by (simp add: nibbles less_mult_imp_div_less)
  show "(of_char c :: nat) AND 15 < 16" by (simp add: nibbles)
qed

lemma unreserved_plain:
  assumes "\<not> shouldEscape c"
  shows "c \<noteq> CHR ''%''" "c \<noteq> CHR ''+''" "\<not> separator c"
  using assms by (auto simp: shouldEscape_def in_range_def separator_def split: if_splits)

lemma QueryEscape_no_separator: "c \<in> set (QueryEscape s) \<Longrightarrow> \<not> separator c"
proof (induction s)
  case Nil
  then show ?case by simp
next
  case (Cons a s)
  then show ?case
    using hex_digit(3-5)[OF nibble_bounds(1), of a] hex_digit(3-5)[OF nibble_bounds(2), of a]
    by (auto simp: separator_def unreserved_plain split: if_splits dest: unreserved_plain(3))
qed

lemma check_escapes_QueryEscape: "check_escapes (QueryEscape s) = None"
  by (induction s) (simp_all add: hex_digit(2) nibble_bounds unreserved_plain)

lemma decode_escapes_QueryEscape: "decode_escapes (QueryEscape s) = s"
  by (induction s) (simp_all add: hex_roundtrip unreserved_plain)

lemma QueryUnescape_QueryEscape: "QueryUnescape (QueryEscape s) = Inr s"
  by (simp add: QueryUnescape_def check_escapes_QueryEscape decode_escapes_QueryEscape)

lemma Cut_absent: "sep \<notin> set s \<Longrightarrow> Cut s sep = (s, [], False)"
  by (induction s) auto

lemma Cut_first: "sep \<notin> set s \<Longrightarrow> Cut (s @ sep # t) sep = (s, t, True)"
  by (induction s) auto


lemma fold_write_pair:
  assumes "\<forall>p \<in> set ps. p \<noteq> []"
  shows "fold write_pair ps buf =
           (if ps = [] then buf else if buf = [] then join_amp ps else buf @ CHR ''&'' # join_amp ps)"
  using assms
proof (induction ps arbitrary: buf)
  case Nil
  then show ?case by simp
next
  case (Cons p ps)
  have ne: "write_pair p buf \<noteq> []" using Cons.prems by (simp add: write_pair_def)
  have "fold write_pair (p # ps) buf = fold write_pair ps (write_pair p buf)" by simp
  also have "\<dots> = (if ps = [] then write_pair p buf else write_pair p buf @ CHR ''&'' # join_amp ps)"
    using Cons.IH [of "write_pair p buf"] Cons.prems ne by simp
  also have "\<dots> = (if buf = [] then join_amp (p # ps) else buf @ CHR ''&'' # join_amp (p # ps))"
    by (cases ps) (simp_all add: write_pair_def)
  finally show ?case by simp
qed

lemma enc_pair_nonempty: "enc_pair p \<noteq> []"
  by (simp add: enc_pair_def)

lemma Encode_join: "Encode v = join_amp (map enc_pair (pairs_of v))"
proof -
  have inner: "fold (\<lambda>x buf. (if buf \<noteq> [] then buf @ ''&'' else buf) @ QueryEscape k @ ''='' @ QueryEscape x) xs
                 = fold write_pair (map enc_pair (map (Pair k) xs))" for k xs
    by (induction xs) (simp_all add: write_pair_def enc_pair_def fun_eq_iff)
  have outer: "fold (\<lambda>k. fold write_pair (map enc_pair (map (Pair k) (values_of v k)))) ks
                 = fold write_pair (map enc_pair (concat (map (\<lambda>k. map (Pair k) (values_of v k)) ks)))" for ks
    by (induction ks) (simp_all add: fun_eq_iff)
  have "Encode v = fold write_pair (map enc_pair (pairs_of v)) []"
  proof (cases "v = []")
    case True
    then show ?thesis by (simp add: Encode_def pairs_of_def)
  next
    case False
    then show ?thesis by (simp only: Encode_def inner outer pairs_of_def if_False)
  qed
  then show ?thesis by (simp add: fold_write_pair enc_pair_nonempty)
qed

lemma enc_pair_Cut_amp:
  "Cut (enc_pair p) CHR ''&'' = (enc_pair p, [], False)"
  "Cut (enc_pair p @ CHR ''&'' # t) CHR ''&'' = (enc_pair p, t, True)"
proof -
  have "CHR ''&'' \<notin> set (enc_pair p)"
    using QueryEscape_no_separator by (auto simp: enc_pair_def separator_def)
  then show "Cut (enc_pair p) CHR ''&'' = (enc_pair p, [], False)"
    and "Cut (enc_pair p @ CHR ''&'' # t) CHR ''&'' = (enc_pair p, t, True)"
    by (simp_all add: Cut_absent Cut_first)
qed

lemma enc_pair_no_semicolon: "CHR '';'' \<notin> set (enc_pair p)"
  using QueryEscape_no_separator by (auto simp: enc_pair_def separator_def)

lemma enc_pair_Cut_eq: "Cut (enc_pair p) CHR ''='' = (QueryEscape (fst p), QueryEscape (snd p), True)"
proof -
  have "CHR ''='' \<notin> set (QueryEscape (fst p))"
    using QueryEscape_no_separator by (auto simp: separator_def)
  then show ?thesis by (simp add: enc_pair_def Cut_first)
qed

lemma parseQuery_enc_pair:
  "parseQuery m (enc_pair p) err = (Add (fst p) (snd p) m, err)"
  "parseQuery m (enc_pair p @ CHR ''&'' # t) err = parseQuery (Add (fst p) (snd p) m) t err"
proof -
  show "parseQuery m (enc_pair p) err = (Add (fst p) (snd p) m, err)"
    by (subst parseQuery.simps)
       (simp add: enc_pair_Cut_amp enc_pair_no_semicolon enc_pair_nonempty enc_pair_Cut_eq
          QueryUnescape_QueryEscape parseQuery.simps [of _ "[]"])
  show "parseQuery m (enc_pair p @ CHR ''&'' # t) err = parseQuery (Add (fst p) (snd p) m) t err"
    by (subst parseQuery.simps)
       (simp add: enc_pair_Cut_amp enc_pair_no_semicolon enc_pair_nonempty enc_pair_Cut_eq
          QueryUnescape_QueryEscape)
qed

lemma parseQuery_join:
  "parseQuery m (join_amp (map enc_pair ps)) err = (fold (\<lambda>p. Add (fst p) (snd p)) ps m, err)"
proof (induction ps arbitrary: m)
  case Nil
  then show ?case by (simp add: parseQuery.simps)
next
  case (Cons p ps)
  then show ?case by (cases ps) (simp_all add: parseQuery_enc_pair)
qed

lemma values_of_Add:
  "values_of (Add k x m) key = values_of m key @ (if key = k then [x] else [])"
  by (induction m) (auto simp: values_of_def)

lemma values_of_fold_Add:
  "values_of (fold (\<lambda>p. Add (fst p) (snd p)) ps m) key
     = values_of m key @ map snd (filter (\<lambda>p. fst p = key) ps)"
  by (induction ps arbitrary: m) (auto simp: values_of_Add)

lemma values_of_absent:
  assumes "key \<notin> fst ` set v"
  shows "values_of v key = []"
proof -
  have "map_of v key = None" using assms by (simp add: map_of_eq_None_iff)
  then show ?thesis by (simp add: values_of_def)
qed

lemma values_of_Nil: "values_of [] key = []"
  by (simp add: values_of_def)

lemma select_key:
  assumes "distinct ks"
  shows "map snd (filter (\<lambda>p. fst p = key) (concat (map (\<lambda>k. map (Pair k) (f k)) ks)))
           = (if key \<in> set ks then f key else [])"
  using assms
proof (induction ks)
  case Nil
  then show ?case by simp
next
  case (Cons k ks)
  have same: "map snd (filter (\<lambda>p. fst p = key) (map (Pair k) (f k))) = (if k = key then f k else [])"
    by (induction "f k") (auto simp: filter_empty_conv o_def)
  show ?case using Cons by (auto simp: same)
qed

lemma values_of_pairs_of:
  assumes "distinct (map fst v)"
  shows "map snd (filter (\<lambda>p. fst p = key) (pairs_of v)) = values_of v key"
  using assms by (simp add: pairs_of_def select_key values_of_absent)

lemma Query_Encode:
  assumes "distinct (map fst v)"
  shows "values_of (Query (u\<lparr>RawQuery := Encode v\<rparr>)) key = values_of v key"
  using assms
  by (simp add: Query_def ParseQuery_def Encode_join parseQuery_join values_of_fold_Add
        values_of_pairs_of values_of_Nil)

lemma keys_Add: "fst ` set (Add k x m) = insert k (fst ` set m)"
proof (induction m)
  case Nil
  then show ?case by simp
next
  case (Cons a m)
  then show ?case by (cases a) (auto simp: image_iff)
qed

lemma distinct_Add: "distinct (map fst m) \<Longrightarrow> distinct (map fst (Add k x m))"
  by (induction m) (auto simp: keys_Add)

lemma distinct_parseQuery:
  "distinct (map fst m) \<Longrightarrow> distinct (map fst (fst (parseQuery m query err)))"
proof (induction m query err rule: parseQuery.induct)
  case (1 m query err)
  show ?case
    using 1 by (subst parseQuery.simps) (auto split: prod.splits sum.splits simp: distinct_Add)
qed

lemma distinct_Query: "distinct (map fst (Query u))"
  by (simp add: Query_def ParseQuery_def distinct_parseQuery)

lemma Query_with_crumb:
  "values_of (Query (ReqURL (with_crumb crumb req))) key
     = values_of (Query (ReqURL req)) key @ (if key = ''crumb'' then [crumb] else [])"
  by (simp add: with_crumb_def Query_Encode distinct_Add distinct_Query values_of_Add)

lemma split_amp_nonempty: "split_amp s \<noteq> []"
  by (induction s) (auto split: list.splits)

lemma join_amp_Cons_char: "join_amp ((c # p) # ps) = c # join_amp (p # ps)"
  by (cases ps) simp_all

lemma join_amp_empty_first: "ps \<noteq> [] \<Longrightarrow> join_amp ([] # ps) = CHR ''&'' # join_amp ps"
  by (cases ps) simp_all

lemma join_split_amp: "join_amp (split_amp s) = s"
proof (induction s)
  case Nil
  then show ?case by simp
next
  case (Cons c s)
  obtain p ps where sp: "split_amp s = p # ps"
    using split_amp_nonempty [of s] by (cases "split_amp s") auto
  with Cons show ?case
    by (simp add: join_amp_Cons_char join_amp_empty_first)
qed

lemma split_amp_pieces: "p \<in> set (split_amp s) \<Longrightarrow> CHR ''&'' \<notin> set p"
proof (induction s arbitrary: p)
  case Nil
  then show ?case by simp
next
  case (Cons c s)
  obtain q qs where sp: "split_amp s = q # qs"
    using split_amp_nonempty [of s] by (cases "split_amp s") auto
  with Cons show ?case by (auto split: if_splits)
qed

lemma parseQuery_Nil: "parseQuery m [] err = (m, err)"
  by (simp add: parseQuery.simps)

lemma parseQuery_piece:
  assumes "Cut query CHR ''&'' = (piece, rest, f)" and "query \<noteq> []"
  shows "\<exists>err'. parseQuery m query err = parseQuery (add_piece piece m) rest err'"
  using assms
  by (subst parseQuery.simps)
     (auto simp: add_piece_def pair_of_def split: prod.splits sum.splits)

lemma parseQuery_pieces:
  assumes "\<forall>p \<in> set pieces. CHR ''&'' \<notin> set p"
  shows "fst (parseQuery m (join_amp pieces) err) = fold add_piece pieces m"
  using assms
proof (induction pieces arbitrary: m err rule: join_amp.induct)
  case 1
  then show ?case by (simp add: parseQuery_Nil)
next
  case (2 p)
  show ?case
  proof (cases "p = []")
    case True
    then show ?thesis by (simp add: parseQuery_Nil add_piece_def pair_of_def)
  next
    case False
    from 2 have "Cut p CHR ''&'' = (p, [], False)" by (simp add: Cut_absent)
    from parseQuery_piece [OF this False, of m err] show ?thesis
      by (auto simp: parseQuery_Nil)
  qed
next
  case (3 p q ps)
  from 3 have "Cut (p @ CHR ''&'' # join_amp (q # ps)) CHR ''&'' = (p, join_amp (q # ps), True)"
    by (simp add: Cut_first)
  from parseQuery_piece [OF this, of m err]
  obtain err' where "parseQuery m (join_amp (p # q # ps)) err = parseQuery (add_piece p m) (join_amp (q # ps)) err'"
    by auto
  with 3 show ?case by simp
qed

lemma values_of_add_piece:
  "values_of (add_piece p m) key
     = values_of m key @ (case pair_of p of None \<Rightarrow> [] | Some kv \<Rightarrow> if fst kv = key then [snd kv] else [])"
  by (auto simp: add_piece_def values_of_Add split: option.splits)

lemma values_of_fold_add_piece:
  "values_of (fold add_piece ps m) key
     = values_of m key @ map snd (filter (\<lambda>kv. fst kv = key) (List.map_filter pair_of ps))"
  by (induction ps arbitrary: m)
     (auto simp: values_of_add_piece List.map_filter_simps split: option.splits)

lemma Query_pieces:
  "values_of (Query u) key
     = map snd (filter (\<lambda>kv. fst kv = key) (List.map_filter pair_of (split_amp (RawQuery u))))"
proof -
  have "fst (parseQuery [] (join_amp (split_amp (RawQuery u))) None) = fold add_piece (split_amp (RawQuery u)) []"
    by (rule parseQuery_pieces) (simp add: split_amp_pieces)
  then show ?thesis
    by (simp add: Query_def ParseQuery_def join_split_amp values_of_fold_add_piece values_of_Nil)
qed

subsection \<open>Do\<close>

lemma logf_frame [simp]:
  "yCrumb (logf n f a w) = yCrumb w"
  "sent (logf n f a w) = sent w"
  "respond (logf n f a w) = respond w"
  "LogLevel (logf n f a w) = LogLevel w"
  by (simp_all add: logf_def)

lemma log_request_frame [simp]:
  "yCrumb (log_request req w) = yCrumb w"
  "sent (log_request req w) = sent w"
  "respond (log_request req w) = respond w"
  by (simp_all add: log_request_def)

lemma exchange_frame:
  "exchange um s req v w = (err, v', w') \<Longrightarrow>
     yCrumb w' = yCrumb w \<and> sent w' = sent w @ [(HTTPClient s, req)] \<and> respond w' = respond w"
  by (auto simp: exchange_def client_Do_def Let_def split: sum.splits option.splits if_splits prod.splits)

lemma exchange_transport_error:
  assumes "respond w (sent w) (HTTPClient s, req) = Inl e"
  shows "fst (exchange um s req v w) = Some (Lib e)" and "fst (snd (exchange um s req v w)) = v"
  using assms by (simp_all add: exchange_def client_Do_def Let_def)

lemma exchange_read_error:
  assumes "respond w (sent w) (HTTPClient s, req) = Inr res" and "RespBody res = Inl e"
  shows "fst (exchange um s req v w) = Some (Lib e)" and "fst (snd (exchange um s req v w)) = v"
  using assms by (simp_all add: exchange_def client_Do_def Let_def)

lemma exchange_remote:
  assumes "respond w (sent w) (HTTPClient s, req) = Inr res" and "RespBody res = Inr b"
    and "400 \<le> RespStatusCode res"
  shows "exchange um s req v w =
           (Some (Remote \<lparr>Msg = ''error response recieved from upstream api'',
                          StatusCode = RespStatusCode res, Body = b\<rparr>),
            v,
            logf 0 ''API error: %q\<newline>'' [AStr b]
              (logf 2 ''Completed in %v\<newline>'' [ADuration] (w\<lparr>sent := sent w @ [(HTTPClient s, req)]\<rparr>)))"
  using assms by (simp add: exchange_def client_Do_def Let_def)

lemma exchange_decode:
  assumes "respond w (sent w) (HTTPClient s, req) = Inr res" and "RespBody res = Inr b"
    and "RespStatusCode res < 400"
  shows "fst (exchange um s req (Some d) w) = map_option Lib (fst (um b d))"
    and "fst (snd (exchange um s req (Some d) w)) = Some (snd (um b d))"
    and "fst (exchange um s req None w) = None"
  using assms by (simp_all add: exchange_def client_Do_def Let_def split: prod.splits)

lemma exchange_RemoteError_only:
  assumes "fst (exchange um s req v w) = Some (Remote e)"
  shows "\<exists>res b. respond w (sent w) (HTTPClient s, req) = Inr res \<and> RespBody res = Inr b
           \<and> 400 \<le> RespStatusCode res
           \<and> e = \<lparr>Msg = ''error response recieved from upstream api'', StatusCode = RespStatusCode res, Body = b\<rparr>"
  using assms
  by (auto simp: exchange_def client_Do_def Let_def split: sum.splits option.splits if_splits prod.splits)

lemma authorize_error:
  assumes "authorize nr s req w = Inl (e, w')"
  shows "\<exists>e'. e = WrapError ''get yahoo crumb err: '' e' \<and> getYahooCrumb nr (HTTPClient s) w = (Inl e', w')
           \<and> Type s = YFinBackend \<and> yCrumb w = []"
  using assms by (auto simp: authorize_def split: if_splits sum.splits prod.splits)

lemma Do_after_authorize:
  assumes "authorize nr s req (log_request req w) = Inr (req', w1)"
  shows "fst (Do nr um s req v w) = fst (exchange um s req' v w1)"
    and "fst (snd (Do nr um s req v w)) = fst (snd (exchange um s req' v w1))"
    and "fst (snd (snd (Do nr um s req v w))) = req'"
    and "snd (snd (snd (Do nr um s req v w))) = snd (snd (exchange um s req' v w1))"
  using assms by (simp_all add: Do_def split: prod.splits)

lemma Do_authorize_failed:
  assumes "authorize nr s req (log_request req w) = Inl (e, w1)"
  shows "Do nr um s req v w = (Some e, v, req, w1)"
  using assms by (simp add: Do_def)

text \<open>
  A response with status 500 whose body cannot be read: \<^verbatim>\<open>Do\<close> returns the error of
  the read, which is not a \<^verbatim>\<open>RemoteError\<close>.
\<close>

theorem Do_status_counterexample:
  "respond (stub_world [] [Inr \<lparr>RespStatusCode = 500, RespBody = Inl ''unexpected EOF''\<rparr>]) [] (0, quote_request)
     = Inr \<lparr>RespStatusCode = 500, RespBody = Inl ''unexpected EOF''\<rparr>
   \<and> fst (Do stub_NewRequest stub_Unmarshal bats quote_request None
             (stub_world [] [Inr \<lparr>RespStatusCode = 500, RespBody = Inl ''unexpected EOF''\<rparr>]))
       = Some (Lib ''unexpected EOF'')
   \<and> \<not> is_RemoteError (Lib ''unexpected EOF'')"
  by (simp add: Do_def authorize_def exchange_def client_Do_def log_request_def logf_def
        stub_world_def bats_def BATSBackend_def YFinBackend_def)

text \<open>
  C2, amended. \<^verbatim>\<open>Do\<close> returns a \<^verbatim>\<open>RemoteError\<close> if and only if it executed the
  request (the handshake, when one was needed, did not fail), a response arrived, its body
  was read in full and its status is 400 or more. The \<^verbatim>\<open>RemoteError\<close> then carries that
  status, the raw body and the fixed message, the destination is returned unchanged, and
  the decoder plays no part in the result. Every other failure (handshake, transport, read
  of the body, decode) is therefore not a \<^verbatim>\<open>RemoteError\<close>.
\<close>

theorem Do_RemoteError:
  "(\<forall>req' w1 res b.
       authorize nr s req (log_request req w) = Inr (req', w1)
       \<and> respond w1 (sent w1) (HTTPClient s, req') = Inr res
       \<and> RespBody res = Inr b \<and> 400 \<le> RespStatusCode res \<longrightarrow>
         fst (Do nr um s req v w)
           = Some (Remote \<lparr>Msg = ''error response recieved from upstream api'',
                           StatusCode = RespStatusCode res, Body = b\<rparr>)
         \<and> fst (snd (Do nr um s req v w)) = v
         \<and> (\<forall>um'. Do nr um' s req v w = Do nr um s req v w))
   \<and> (\<forall>e. fst (Do nr um s req v w) = Some (Remote e) \<longrightarrow>
         (\<exists>req' w1 res b.
            authorize nr s req (log_request req w) = Inr (req', w1)
            \<and> respond w1 (sent w1) (HTTPClient s, req') = Inr res
            \<and> RespBody res = Inr b \<and> 400 \<le> RespStatusCode res
            \<and> e = \<lparr>Msg = ''error response recieved from upstream api'',
                     StatusCode = RespStatusCode res, Body = b\<rparr>))"
proof (intro conjI allI impI)
  fix req' w1 res b
  assume a: "authorize nr s req (log_request req w) = Inr (req', w1)
       \<and> respond w1 (sent w1) (HTTPClient s, req') = Inr res
       \<and> RespBody res = Inr b \<and> 400 \<le> RespStatusCode res"
  then have ex: "exchange um s req' v w1 =
           (Some (Remote \<lparr>Msg = ''error response recieved from upstream api'',
                          StatusCode = RespStatusCode res, Body = b\<rparr>),
            v,
            logf 0 ''API error: %q\<newline>'' [AStr b]
              (logf 2 ''Completed in %v\<newline>'' [ADuration] (w1\<lparr>sent := sent w1 @ [(HTTPClient s, req')]\<rparr>)))" for um :: "string \<Rightarrow> 'a \<Rightarrow> lib_error option \<times> 'a"
    using exchange_remote by blast
  show "fst (Do nr um s req v w)
           = Some (Remote \<lparr>Msg = ''error response recieved from upstream api'',
                           StatusCode = RespStatusCode res, Body = b\<rparr>)"
    using a ex by (simp add: Do_def)
  show "fst (snd (Do nr um s req v w)) = v"
    using a ex by (simp add: Do_def)
  show "Do nr um' s req v w = Do nr um s req v w" for um'
    using a ex [of um] ex [of um'] by (simp add: Do_def)
next
  fix e
  assume r: "fst (Do nr um s req v w) = Some (Remote e)"
  show "\<exists>req' w1 res b.
            authorize nr s req (log_request req w) = Inr (req', w1)
            \<and> respond w1 (sent w1) (HTTPClient s, req') = Inr res
            \<and> RespBody res = Inr b \<and> 400 \<le> RespStatusCode res
            \<and> e = \<lparr>Msg = ''error response recieved from upstream api'',
                     StatusCode = RespStatusCode res, Body = b\<rparr>"
  proof (cases "authorize nr s req (log_request req w)")
    case (Inl ew)
    obtain e0 w0 where "ew = (e0, w0)" by (cases ew)
    with Inl authorize_error [of nr s req "log_request req w" e0 w0] r show ?thesis
      by (auto simp: Do_def)
  next
    case (Inr rw)
    obtain req' w1 where rw: "rw = (req', w1)" by (cases rw)
    with Inr r have "fst (exchange um s req' v w1) = Some (Remote e)"
      by (simp add: Do_def split: prod.splits)
    from exchange_RemoteError_only [OF this] Inr rw show ?thesis by auto
  qed
qed


lemma authorize_bats:
  "authorize nr bats req w = Inr (req, w)"
  by (simp add: authorize_def bats_def BATSBackend_def YFinBackend_def)

theorem Do_RemoteError_witness:
  "fst (Do stub_NewRequest stub_Unmarshal bats quote_request (Some 0)
          (stub_world [] [Inr \<lparr>RespStatusCode = 404, RespBody = Inr ''not found''\<rparr>]))
     = Some (Remote \<lparr>Msg = ''error response recieved from upstream api'', StatusCode = 404, Body = ''not found''\<rparr>)
   \<and> fst (snd (Do stub_NewRequest stub_Unmarshal bats quote_request (Some 0)
          (stub_world [] [Inr \<lparr>RespStatusCode = 404, RespBody = Inr ''not found''\<rparr>])))
     = Some 0"
proof -
  let ?w = "stub_world [] [Inr \<lparr>RespStatusCode = 404, RespBody = Inr ''not found''\<rparr>]"
  let ?res = "\<lparr>RespStatusCode = 404, RespBody = Inr ''not found''\<rparr>"
  have "authorize stub_NewRequest bats quote_request (log_request quote_request ?w)
          = Inr (quote_request, log_request quote_request ?w)
        \<and> respond (log_request quote_request ?w) (sent (log_request quote_request ?w)) (HTTPClient bats, quote_request)
          = Inr ?res
        \<and> RespBody ?res = Inr ''not found'' \<and> 400 \<le> RespStatusCode ?res"
    by (simp add: authorize_bats) (simp add: stub_world_def)
  with Do_RemoteError [where nr = stub_NewRequest and um = stub_Unmarshal and s = bats
      and req = quote_request and v = "Some 0" and w = ?w]
  show ?thesis by (metis Response.select_convs(1))
qed

text \<open>
  C6. When the response of the executed request has a status below 400 and body \<open>b\<close>,
  and a destination \<open>d\<close> was supplied, \<^verbatim>\<open>Do\<close> returns exactly what
  \<^verbatim>\<open>json.Unmarshal(b, d)\<close> gives: its error as it is, not wrapped, and the destination as
  the decoder leaves it; when the decoder reports no error, \<^verbatim>\<open>Do\<close> returns no error.
\<close>

theorem Do_decodes:
  assumes "authorize nr s req (log_request req w) = Inr (req', w1)"
    and "respond w1 (sent w1) (HTTPClient s, req') = Inr res"
    and "RespStatusCode res < 400"
    and "RespBody res = Inr b"
  shows "fst (Do nr um s req (Some d) w) = map_option Lib (fst (um b d))
       \<and> fst (snd (Do nr um s req (Some d) w)) = Some (snd (um b d))
       \<and> (fst (um b d) = None \<longrightarrow> fst (Do nr um s req (Some d) w) = None)
       \<and> (\<forall>e. fst (um b d) = Some e \<longrightarrow> fst (Do nr um s req (Some d) w) = Some (Lib e))"
proof -
  have 1: "fst (Do nr um s req (Some d) w) = map_option Lib (fst (um b d))"
    using assms exchange_decode(1) [of w1 s req' res b um d]
    by (simp add: Do_after_authorize)
  have 2: "fst (snd (Do nr um s req (Some d) w)) = Some (snd (um b d))"
    using assms exchange_decode(2) [of w1 s req' res b um d]
    by (simp add: Do_after_authorize)
  from 1 2 show ?thesis by simp
qed

theorem Do_decodes_witness:
  "fst (Do stub_NewRequest stub_Unmarshal bats quote_request (Some 0)
          (stub_world [] [Inr \<lparr>RespStatusCode = 200, RespBody = Inr ''1''\<rparr>])) = None
   \<and> fst (snd (Do stub_NewRequest stub_Unmarshal bats quote_request (Some 0)
          (stub_world [] [Inr \<lparr>RespStatusCode = 200, RespBody = Inr ''1''\<rparr>]))) = Some 1
   \<and> fst (Do stub_NewRequest stub_Unmarshal bats quote_request (Some 0)
          (stub_world [] [Inr \<lparr>RespStatusCode = 200, RespBody = Inr ''<html>''\<rparr>])) = Some (Lib ''invalid character'')"
proof -
  let ?w = "stub_world [] [Inr \<lparr>RespStatusCode = 200, RespBody = Inr ''1''\<rparr>]"
  let ?w' = "stub_world [] [Inr \<lparr>RespStatusCode = 200, RespBody = Inr ''<html>''\<rparr>]"
  have a: "authorize stub_NewRequest bats quote_request (log_request quote_request w)
          = Inr (quote_request, log_request quote_request w)" for w
    by (simp add: authorize_bats)
  have r: "respond (log_request quote_request ?w) (sent (log_request quote_request ?w)) (HTTPClient bats, quote_request)
          = Inr \<lparr>RespStatusCode = 200, RespBody = Inr ''1''\<rparr>"
    by (simp add: stub_world_def)
  have r': "respond (log_request quote_request ?w') (sent (log_request quote_request ?w')) (HTTPClient bats, quote_request)
          = Inr \<lparr>RespStatusCode = 200, RespBody = Inr ''<html>''\<rparr>"
    by (simp add: stub_world_def)
  show ?thesis
    using Do_decodes [OF a r, of "''1''" stub_Unmarshal 0] Do_decodes [OF a r', of "''<html>''" stub_Unmarshal 0]
    by (simp add: stub_Unmarshal_def)
qed

lemma getYahooCrumb_frame:
  assumes "getYahooCrumb nr c w = (r, w1)"
  shows "yCrumb w1 = yCrumb w" and "respond w1 = respond w" and "\<exists>hs. sent w1 = sent w @ hs"
  using assms
  by (auto simp: getYahooCrumb_def client_Do_def split: sum.splits prod.splits)

lemma authorize_yahoo_empty:
  assumes "Type s = YFinBackend" and "yCrumb w = []"
  shows "authorize nr s req w =
           (case getYahooCrumb nr (HTTPClient s) w of
              (Inl e, w1) \<Rightarrow> Inl (WrapError ''get yahoo crumb err: '' e, w1)
            | (Inr crumb, w1) \<Rightarrow> Inr (with_crumb crumb req, w1\<lparr>yCrumb := crumb\<rparr>))"
  using assms by (simp add: authorize_def with_crumb_def split: sum.splits prod.splits)

lemma authorize_cached:
  assumes "yCrumb w \<noteq> []"
  shows "authorize nr s req w = Inr (if Type s = YFinBackend then with_crumb (yCrumb w) req else req, w)"
  using assms by (simp add: authorize_def with_crumb_def)

lemma authorize_other:
  assumes "Type s \<noteq> YFinBackend"
  shows "authorize nr s req w = Inr (req, w)"
  using assms by (simp add: authorize_def)

lemma Do_world:
  assumes "authorize nr s req (log_request req w) = Inr (req', w1)"
  shows "yCrumb (snd (snd (snd (Do nr um s req v w)))) = yCrumb w1"
    and "sent (snd (snd (snd (Do nr um s req v w)))) = sent w1 @ [(HTTPClient s, req')]"
    and "respond (snd (snd (snd (Do nr um s req v w)))) = respond w1"
proof -
  obtain err v' w' where ex: "exchange um s req' v w1 = (err, v', w')"
    by (cases "exchange um s req' v w1") auto
  from exchange_frame [OF ex] ex assms
  show "yCrumb (snd (snd (snd (Do nr um s req v w)))) = yCrumb w1"
    and "sent (snd (snd (snd (Do nr um s req v w)))) = sent w1 @ [(HTTPClient s, req')]"
    and "respond (snd (snd (snd (Do nr um s req v w)))) = respond w1"
    by (simp_all add: Do_after_authorize)
qed

lemma Do_handshake_error:
  assumes "Type s = YFinBackend" and "yCrumb w = []"
    and "getYahooCrumb nr (HTTPClient s) (log_request req w) = (Inl e, w1)"
  shows "Do nr um s req v w = (Some (WrapError ''get yahoo crumb err: '' e), v, req, w1)"
    and "yCrumb w1 = []"
proof -
  have empty: "yCrumb (log_request req w) = []" using assms(2) by simp
  from authorize_yahoo_empty [OF assms(1) empty, of nr req] assms(3)
  have "authorize nr s req (log_request req w) = Inl (WrapError ''get yahoo crumb err: '' e, w1)" by simp
  then show "Do nr um s req v w = (Some (WrapError ''get yahoo crumb err: '' e), v, req, w1)"
    by (rule Do_authorize_failed)
  show "yCrumb w1 = []" using getYahooCrumb_frame(1) [OF assms(3)] empty by simp
qed

lemma Do_handshake_ok:
  assumes "Type s = YFinBackend" and "yCrumb w = []"
    and "getYahooCrumb nr (HTTPClient s) (log_request req w) = (Inr crumb, w1)"
  shows "yCrumb (snd (snd (snd (Do nr um s req v w)))) = crumb"
    and "sent (snd (snd (snd (Do nr um s req v w)))) = sent w1 @ [(HTTPClient s, with_crumb crumb req)]"
proof -
  have empty: "yCrumb (log_request req w) = []" using assms(2) by simp
  from authorize_yahoo_empty [OF assms(1) empty, of nr req] assms(3)
  have a: "authorize nr s req (log_request req w) = Inr (with_crumb crumb req, w1\<lparr>yCrumb := crumb\<rparr>)" by simp
  show "yCrumb (snd (snd (snd (Do nr um s req v w)))) = crumb"
    using Do_world(1) [OF a, of um v] by simp
  show "sent (snd (snd (snd (Do nr um s req v w)))) = sent w1 @ [(HTTPClient s, with_crumb crumb req)]"
    using Do_world(2) [OF a, of um v] by simp
qed

lemma exchange_not_wrapped: "fst (exchange um s req v w) \<noteq> Some (WrapError m e)"
  by (auto simp: exchange_def client_Do_def Let_def split: sum.splits option.splits prod.splits)

text \<open>
  With 404 at the first step of the handshake and 429 at the second, \<^verbatim>\<open>Do\<close> returns
  no wrapped error, caches the body of the second response as the token, and a second
  call does not run the handshake again: four requests are sent by the two calls.
\<close>

theorem Do_handshake_status_counterexample:
  "fst (Do stub_NewRequest stub_Unmarshal yahoo quote_request (Some 0)
          (stub_world [] [Inr \<lparr>RespStatusCode = 404, RespBody = Inr ''Not Found''\<rparr>,
                          Inr \<lparr>RespStatusCode = 429, RespBody = Inr ''Too Many Requests''\<rparr>,
                          Inr \<lparr>RespStatusCode = 200, RespBody = Inr ''1''\<rparr>])) = None
   \<and> yCrumb (snd (snd (snd (Do stub_NewRequest stub_Unmarshal yahoo quote_request (Some 0)
          (stub_world [] [Inr \<lparr>RespStatusCode = 404, RespBody = Inr ''Not Found''\<rparr>,
                          Inr \<lparr>RespStatusCode = 429, RespBody = Inr ''Too Many Requests''\<rparr>,
                          Inr \<lparr>RespStatusCode = 200, RespBody = Inr ''1''\<rparr>])))))
       = ''Too Many Requests''
   \<and> length (sent (snd (Do_calls stub_NewRequest stub_Unmarshal
          [(yahoo, quote_request, Some 0), (yahoo, quote_request, Some 0)]
          (stub_world [] [Inr \<lparr>RespStatusCode = 404, RespBody = Inr ''Not Found''\<rparr>,
                          Inr \<lparr>RespStatusCode = 429, RespBody = Inr ''Too Many Requests''\<rparr>,
                          Inr \<lparr>RespStatusCode = 200, RespBody = Inr ''1''\<rparr>,
                          Inr \<lparr>RespStatusCode = 200, RespBody = Inr ''1''\<rparr>])))) = 4"
  by (simp add: Do_def authorize_def exchange_def getYahooCrumb_def client_Do_def log_request_def logf_def
        stub_world_def stub_NewRequest_def stub_Unmarshal_def yahoo_def)

text \<open>
  C3, amended. For the yahoo backend with an empty token cache, \<^verbatim>\<open>Do\<close> runs the
  handshake before it executes the request. The handshake fails when its first or second
  GET suffers a transport error or the second body cannot be read, and only then: \<^verbatim>\<open>Do\<close>
  returns that error wrapped with \<^verbatim>\<open>"get yahoo crumb err: "\<close>, leaves the destination and
  the request as they were, does not execute the request, and leaves the cache empty, so
  that the next call runs the handshake again. The status of the two responses is not
  looked at: whenever both arrive and the second body is read, that body is cached as the
  token, no wrapped error is returned, and the request is executed after the two of the
  handshake. The cache is non-empty afterwards only in that case.
\<close>

theorem Do_handshake_outcomes:
  assumes "Type s = YFinBackend" and "yCrumb w = []"
    and "nr ''GET'' ''https://finance.yahoo.com/'' = Inr r1"
    and "nr ''GET'' ''https://query2.finance.yahoo.com/v1/test/getcrumb'' = Inr r2"
  shows "(\<forall>e. respond w (sent w) (HTTPClient s, setBrowserHeaders r1) = Inl e \<longrightarrow>
            fst (Do nr um s req v w) = Some (WrapError ''get yahoo crumb err: '' (Lib e))
            \<and> fst (snd (Do nr um s req v w)) = v
            \<and> fst (snd (snd (Do nr um s req v w))) = req
            \<and> yCrumb (snd (snd (snd (Do nr um s req v w)))) = []
            \<and> sent (snd (snd (snd (Do nr um s req v w)))) = sent w @ [(HTTPClient s, setBrowserHeaders r1)])
       \<and> (\<forall>resp1 e.
            respond w (sent w) (HTTPClient s, setBrowserHeaders r1) = Inr resp1
            \<and> (respond w (sent w @ [(HTTPClient s, setBrowserHeaders r1)]) (HTTPClient s, setBrowserHeaders r2) = Inl e
               \<or> (\<exists>resp2. respond w (sent w @ [(HTTPClient s, setBrowserHeaders r1)]) (HTTPClient s, setBrowserHeaders r2) = Inr resp2
                     \<and> RespBody resp2 = Inl e)) \<longrightarrow>
            fst (Do nr um s req v w) = Some (WrapError ''get yahoo crumb err: '' (Lib e))
            \<and> fst (snd (Do nr um s req v w)) = v
            \<and> fst (snd (snd (Do nr um s req v w))) = req
            \<and> yCrumb (snd (snd (snd (Do nr um s req v w)))) = []
            \<and> sent (snd (snd (snd (Do nr um s req v w))))
                = sent w @ [(HTTPClient s, setBrowserHeaders r1), (HTTPClient s, setBrowserHeaders r2)])
       \<and> (\<forall>resp1 resp2 b.
            respond w (sent w) (HTTPClient s, setBrowserHeaders r1) = Inr resp1
            \<and> respond w (sent w @ [(HTTPClient s, setBrowserHeaders r1)]) (HTTPClient s, setBrowserHeaders r2) = Inr resp2
            \<and> RespBody resp2 = Inr b \<longrightarrow>
            yCrumb (snd (snd (snd (Do nr um s req v w)))) = b
            \<and> (\<forall>e. fst (Do nr um s req v w) \<noteq> Some (WrapError ''get yahoo crumb err: '' e))
            \<and> sent (snd (snd (snd (Do nr um s req v w))))
                = sent w @ [(HTTPClient s, setBrowserHeaders r1), (HTTPClient s, setBrowserHeaders r2),
                            (HTTPClient s, with_crumb b req)])
       \<and> (yCrumb (snd (snd (snd (Do nr um s req v w)))) \<noteq> [] \<longrightarrow>
            (\<exists>resp1 resp2.
               respond w (sent w) (HTTPClient s, setBrowserHeaders r1) = Inr resp1
               \<and> respond w (sent w @ [(HTTPClient s, setBrowserHeaders r1)]) (HTTPClient s, setBrowserHeaders r2) = Inr resp2
               \<and> RespBody resp2 = Inr (yCrumb (snd (snd (snd (Do nr um s req v w)))))))"
proof -
  let ?c = "HTTPClient s"
  let ?h1 = "(?c, setBrowserHeaders r1)"
  let ?h2 = "(?c, setBrowserHeaders r2)"
  let ?w0 = "log_request req w"
  let ?D = "Do nr um s req v w"
  have g: "getYahooCrumb nr ?c ?w0 =
      (case respond w (sent w) ?h1 of
         Inl e \<Rightarrow> (Inl (Lib e), ?w0\<lparr>sent := sent w @ [?h1]\<rparr>)
       | Inr resp1 \<Rightarrow>
          (case respond w (sent w @ [?h1]) ?h2 of
             Inl e \<Rightarrow> (Inl (Lib e), ?w0\<lparr>sent := sent w @ [?h1, ?h2]\<rparr>)
           | Inr resp2 \<Rightarrow>
              (case RespBody resp2 of
                 Inl e \<Rightarrow> (Inl (Lib e), ?w0\<lparr>sent := sent w @ [?h1, ?h2]\<rparr>)
               | Inr b \<Rightarrow> (Inr b, ?w0\<lparr>sent := sent w @ [?h1, ?h2]\<rparr>))))"
    using assms(3,4) by (simp add: getYahooCrumb_def client_Do_def split: sum.splits)
  have failed: "fst ?D = Some (WrapError ''get yahoo crumb err: '' e) \<and> fst (snd ?D) = v
      \<and> fst (snd (snd ?D)) = req \<and> yCrumb (snd (snd (snd ?D))) = [] \<and> sent (snd (snd (snd ?D))) = sent w1"
    if "getYahooCrumb nr ?c ?w0 = (Inl e, w1)" for e w1
    using Do_handshake_error(1) [OF assms(1,2) that, of um v] Do_handshake_error(2) [OF assms(1,2) that]
    by simp
  have ok: "yCrumb (snd (snd (snd ?D))) = b \<and> sent (snd (snd (snd ?D))) = sent w1 @ [(?c, with_crumb b req)]
      \<and> (\<forall>e. fst ?D \<noteq> Some (WrapError ''get yahoo crumb err: '' e))"
    if h: "getYahooCrumb nr ?c ?w0 = (Inr b, w1)" for b w1
  proof -
    have empty: "yCrumb ?w0 = []" using assms(2) by simp
    from authorize_yahoo_empty [OF assms(1) empty, of nr req] h
    have a: "authorize nr s req ?w0 = Inr (with_crumb b req, w1\<lparr>yCrumb := b\<rparr>)" by simp
    have "fst ?D = fst (exchange um s (with_crumb b req) v (w1\<lparr>yCrumb := b\<rparr>))"
      by (rule Do_after_authorize(1) [OF a])
    then have "fst ?D \<noteq> Some (WrapError ''get yahoo crumb err: '' e)" for e
      by (simp add: exchange_not_wrapped)
    with Do_handshake_ok [OF assms(1,2) h, of um v] show ?thesis by simp
  qed
  have 1: "fst ?D = Some (WrapError ''get yahoo crumb err: '' (Lib e)) \<and> fst (snd ?D) = v
      \<and> fst (snd (snd ?D)) = req \<and> yCrumb (snd (snd (snd ?D))) = []
      \<and> sent (snd (snd (snd ?D))) = sent w @ [?h1]"
    if "respond w (sent w) ?h1 = Inl e" for e
    using failed [of "Lib e" "?w0\<lparr>sent := sent w @ [?h1]\<rparr>"] g that by simp
  have 2: "fst ?D = Some (WrapError ''get yahoo crumb err: '' (Lib e)) \<and> fst (snd ?D) = v
      \<and> fst (snd (snd ?D)) = req \<and> yCrumb (snd (snd (snd ?D))) = []
      \<and> sent (snd (snd (snd ?D))) = sent w @ [?h1, ?h2]"
    if "respond w (sent w) ?h1 = Inr resp1"
      and "respond w (sent w @ [?h1]) ?h2 = Inl e
           \<or> (\<exists>resp2. respond w (sent w @ [?h1]) ?h2 = Inr resp2 \<and> RespBody resp2 = Inl e)"
    for resp1 e
    using failed [of "Lib e" "?w0\<lparr>sent := sent w @ [?h1, ?h2]\<rparr>"] g that by auto
  have 3: "yCrumb (snd (snd (snd ?D))) = b
      \<and> (\<forall>e. fst ?D \<noteq> Some (WrapError ''get yahoo crumb err: '' e))
      \<and> sent (snd (snd (snd ?D))) = sent w @ [?h1, ?h2, (?c, with_crumb b req)]"
    if "respond w (sent w) ?h1 = Inr resp1" and "respond w (sent w @ [?h1]) ?h2 = Inr resp2"
      and "RespBody resp2 = Inr b" for resp1 resp2 b
    using ok [of b "?w0\<lparr>sent := sent w @ [?h1, ?h2]\<rparr>"] g that by simp
  have 4: "\<exists>resp1 resp2. respond w (sent w) ?h1 = Inr resp1 \<and> respond w (sent w @ [?h1]) ?h2 = Inr resp2
      \<and> RespBody resp2 = Inr (yCrumb (snd (snd (snd ?D))))"
    if ne: "yCrumb (snd (snd (snd ?D))) \<noteq> []"
  proof (cases "respond w (sent w) ?h1")
    case (Inl e)
    with 1 [of e] ne show ?thesis by simp
  next
    case r1: (Inr resp1)
    show ?thesis
    proof (cases "respond w (sent w @ [?h1]) ?h2")
      case (Inl e)
      with 2 [OF r1, of e] ne show ?thesis by simp
    next
      case r2: (Inr resp2)
      show ?thesis
      proof (cases "RespBody resp2")
        case (Inl e)
        with 2 [OF r1, of e] r2 ne show ?thesis by auto
      next
        case (Inr b)
        with 3 [OF r1 r2, of b] r1 r2 show ?thesis by simp
      qed
    qed
  qed
  from 1 2 3 4 show ?thesis by blast
qed

theorem Do_handshake_outcomes_witness:
  "fst (Do stub_NewRequest stub_Unmarshal yahoo quote_request (Some 0) (stub_world [] [Inl ''dial tcp: timeout'']))
     = Some (WrapError ''get yahoo crumb err: '' (Lib ''dial tcp: timeout''))
   \<and> yCrumb (snd (snd (snd (Do stub_NewRequest stub_Unmarshal yahoo quote_request (Some 0)
        (stub_world [] [Inl ''dial tcp: timeout''])))))
     = []
   \<and> fst (Do stub_NewRequest stub_Unmarshal yahoo quote_request (Some 0)
        (stub_world [] [Inr \<lparr>RespStatusCode = 200, RespBody = Inr ''<html>''\<rparr>, Inl ''EOF'']))
     = Some (WrapError ''get yahoo crumb err: '' (Lib ''EOF''))
   \<and> yCrumb (snd (snd (snd (Do stub_NewRequest stub_Unmarshal yahoo quote_request (Some 0)
        (stub_world [] [Inr \<lparr>RespStatusCode = 200, RespBody = Inr ''<html>''\<rparr>,
                        Inr \<lparr>RespStatusCode = 200, RespBody = Inr ''abc''\<rparr>,
                        Inr \<lparr>RespStatusCode = 200, RespBody = Inr ''1''\<rparr>])))))
     = ''abc''"
proof -
  let ?r1 = "projr (stub_NewRequest ''GET'' ''https://finance.yahoo.com/'')"
  let ?r2 = "projr (stub_NewRequest ''GET'' ''https://query2.finance.yahoo.com/v1/test/getcrumb'')"
  let ?w1 = "stub_world [] [Inl ''dial tcp: timeout'']"
  let ?w2 = "stub_world [] [Inr \<lparr>RespStatusCode = 200, RespBody = Inr ''<html>''\<rparr>, Inl ''EOF'']"
  let ?w3 = "stub_world [] [Inr \<lparr>RespStatusCode = 200, RespBody = Inr ''<html>''\<rparr>,
                        Inr \<lparr>RespStatusCode = 200, RespBody = Inr ''abc''\<rparr>,
                        Inr \<lparr>RespStatusCode = 200, RespBody = Inr ''1''\<rparr>]"
  have n1: "stub_NewRequest ''GET'' ''https://finance.yahoo.com/'' = Inr ?r1"
    by (simp add: stub_NewRequest_def)
  have n2: "stub_NewRequest ''GET'' ''https://query2.finance.yahoo.com/v1/test/getcrumb'' = Inr ?r2"
    by (simp add: stub_NewRequest_def)
  have t: "Type yahoo = YFinBackend" by (simp add: yahoo_def)
  have e: "yCrumb ?w1 = []" "yCrumb ?w2 = []" "yCrumb ?w3 = []" by (simp_all add: stub_world_def)
  have a1: "respond ?w1 (sent ?w1) (HTTPClient yahoo, setBrowserHeaders ?r1) = Inl ''dial tcp: timeout''"
    by (simp add: stub_world_def)
  have a2: "respond ?w2 (sent ?w2) (HTTPClient yahoo, setBrowserHeaders ?r1)
              = Inr \<lparr>RespStatusCode = 200, RespBody = Inr ''<html>''\<rparr>
            \<and> (respond ?w2 (sent ?w2 @ [(HTTPClient yahoo, setBrowserHeaders ?r1)]) (HTTPClient yahoo, setBrowserHeaders ?r2) = Inl ''EOF''
               \<or> (\<exists>resp2. respond ?w2 (sent ?w2 @ [(HTTPClient yahoo, setBrowserHeaders ?r1)]) (HTTPClient yahoo, setBrowserHeaders ?r2) = Inr resp2
                     \<and> RespBody resp2 = Inl ''EOF''))"
    by (simp add: stub_world_def)
  have a3: "respond ?w3 (sent ?w3) (HTTPClient yahoo, setBrowserHeaders ?r1)
              = Inr \<lparr>RespStatusCode = 200, RespBody = Inr ''<html>''\<rparr>
            \<and> respond ?w3 (sent ?w3 @ [(HTTPClient yahoo, setBrowserHeaders ?r1)]) (HTTPClient yahoo, setBrowserHeaders ?r2)
              = Inr \<lparr>RespStatusCode = 200, RespBody = Inr ''abc''\<rparr>
            \<and> RespBody \<lparr>RespStatusCode = 200, RespBody = Inr ''abc''\<rparr> = Inr ''abc''"
    by (simp add: stub_world_def)
  note o1 = Do_handshake_outcomes [where nr = stub_NewRequest and um = stub_Unmarshal and req = quote_request
      and v = "Some 0", OF t e(1) n1 n2]
  note o2 = Do_handshake_outcomes [where nr = stub_NewRequest and um = stub_Unmarshal and req = quote_request
      and v = "Some 0", OF t e(2) n1 n2]
  note o3 = Do_handshake_outcomes [where nr = stub_NewRequest and um = stub_Unmarshal and req = quote_request
      and v = "Some 0", OF t e(3) n1 n2]
  from o1 a1 have 1: "fst (Do stub_NewRequest stub_Unmarshal yahoo quote_request (Some 0) ?w1)
       = Some (WrapError ''get yahoo crumb err: '' (Lib ''dial tcp: timeout''))
     \<and> yCrumb (snd (snd (snd (Do stub_NewRequest stub_Unmarshal yahoo quote_request (Some 0) ?w1)))) = []"
    by blast
  from o2 a2 have 2: "fst (Do stub_NewRequest stub_Unmarshal yahoo quote_request (Some 0) ?w2)
       = Some (WrapError ''get yahoo crumb err: '' (Lib ''EOF''))"
    by blast
  from o3 a3 have 3: "yCrumb (snd (snd (snd (Do stub_NewRequest stub_Unmarshal yahoo quote_request (Some 0) ?w3)))) = ''abc''"
    by blast
  from 1 2 3 show ?thesis by simp
qed

lemma Do_cached:
  assumes "yCrumb w \<noteq> []"
  shows "yCrumb (snd (snd (snd (Do nr um s req v w)))) = yCrumb w"
    and "sent (snd (snd (snd (Do nr um s req v w))))
           = sent w @ [(HTTPClient s, if Type s = YFinBackend then with_crumb (yCrumb w) req else req)]"
proof -
  have ne: "yCrumb (log_request req w) \<noteq> []" using assms by simp
  note a = authorize_cached [OF ne, of nr s req]
  show "yCrumb (snd (snd (snd (Do nr um s req v w)))) = yCrumb w"
    using Do_world(1) [OF a, of um v] by simp
  show "sent (snd (snd (snd (Do nr um s req v w))))
           = sent w @ [(HTTPClient s, if Type s = YFinBackend then with_crumb (yCrumb w) req else req)]"
    using Do_world(2) [OF a, of um v] by simp
qed

lemma Do_calls_cached:
  assumes "yCrumb w \<noteq> []"
  shows "yCrumb (snd (Do_calls nr um calls w)) = yCrumb w
       \<and> sent (snd (Do_calls nr um calls w))
           = sent w @ map (\<lambda>(s, req, v). (HTTPClient s, if Type s = YFinBackend then with_crumb (yCrumb w) req else req)) calls"
  using assms
proof (induction calls arbitrary: w)
  case Nil
  then show ?case by simp
next
  case (Cons call calls)
  obtain s req v where call: "call = (s, req, v)" by (cases call)
  obtain err v' req' w' where d: "Do nr um s req v w = (err, v', req', w')"
    by (cases "Do nr um s req v w") auto
  have w': "yCrumb w' = yCrumb w"
    "sent w' = sent w @ [(HTTPClient s, if Type s = YFinBackend then with_crumb (yCrumb w) req else req)]"
    using Do_cached [OF Cons.prems, of nr um s req v] d by simp_all
  then have "yCrumb w' \<noteq> []" using Cons.prems by simp
  from Cons.IH [OF this]
  have IH: "yCrumb (snd (Do_calls nr um calls w')) = yCrumb w
       \<and> sent (snd (Do_calls nr um calls w'))
           = sent w' @ map (\<lambda>(s, req, v). (HTTPClient s, if Type s = YFinBackend then with_crumb (yCrumb w) req else req)) calls"
    by (simp only: w'(1))
  have "snd (Do_calls nr um (call # calls) w) = snd (Do_calls nr um calls w')"
    using call d by (simp split: prod.splits)
  with IH w'(2) call show ?case by simp
qed

lemma Do_writes_cache_only_when_empty:
  assumes "yCrumb (snd (snd (snd (Do nr um s req v w)))) \<noteq> yCrumb w"
  shows "yCrumb w = []"
  using assms Do_cached(1) by blast

text \<open>
  C4. Once the cache holds a non-empty token, any sequence of calls of \<^verbatim>\<open>Do\<close> leaves the
  cache as it is and executes exactly one request per call, the caller's own, carrying the
  cached token when the backend is yahoo: the handshake endpoints are not called again.
  A call of \<^verbatim>\<open>Do\<close> changes the cache only if the cache was empty.
\<close>

theorem Do_reuses_cached_crumb:
  "(yCrumb w \<noteq> [] \<longrightarrow>
      yCrumb (snd (Do_calls nr um calls w)) = yCrumb w
      \<and> sent (snd (Do_calls nr um calls w))
          = sent w @ map (\<lambda>(s, req, v). (HTTPClient s, if Type s = YFinBackend then with_crumb (yCrumb w) req else req)) calls)
   \<and> (yCrumb (snd (snd (snd (Do nr um s req v w)))) \<noteq> yCrumb w \<longrightarrow> yCrumb w = [])"
  using Do_calls_cached Do_writes_cache_only_when_empty by blast

theorem Do_reuses_cached_crumb_witness:
  "yCrumb (snd (Do_calls stub_NewRequest stub_Unmarshal
             [(yahoo, quote_request, Some 0), (yahoo, quote_request, None)]
             (stub_world ''abc'' [Inr \<lparr>RespStatusCode = 200, RespBody = Inr ''1''\<rparr>]))) = ''abc''
   \<and> sent (snd (Do_calls stub_NewRequest stub_Unmarshal
             [(yahoo, quote_request, Some 0), (yahoo, quote_request, None)]
             (stub_world ''abc'' [Inr \<lparr>RespStatusCode = 200, RespBody = Inr ''1''\<rparr>])))
       = [(0, with_crumb ''abc'' quote_request), (0, with_crumb ''abc'' quote_request)]
   \<and> yCrumb (snd (snd (snd (Do stub_NewRequest stub_Unmarshal yahoo quote_request (Some 0)
        (stub_world [] [Inr \<lparr>RespStatusCode = 200, RespBody = Inr ''<html>''\<rparr>,
                        Inr \<lparr>RespStatusCode = 200, RespBody = Inr ''abc''\<rparr>,
                        Inr \<lparr>RespStatusCode = 200, RespBody = Inr ''1''\<rparr>])))))
       \<noteq> yCrumb (stub_world [] [Inr \<lparr>RespStatusCode = 200, RespBody = Inr ''<html>''\<rparr>,
                        Inr \<lparr>RespStatusCode = 200, RespBody = Inr ''abc''\<rparr>,
                        Inr \<lparr>RespStatusCode = 200, RespBody = Inr ''1''\<rparr>])"
proof -
  let ?w = "stub_world ''abc'' [Inr \<lparr>RespStatusCode = 200, RespBody = Inr ''1''\<rparr>]"
  let ?w' = "stub_world [] [Inr \<lparr>RespStatusCode = 200, RespBody = Inr ''<html>''\<rparr>,
                        Inr \<lparr>RespStatusCode = 200, RespBody = Inr ''abc''\<rparr>,
                        Inr \<lparr>RespStatusCode = 200, RespBody = Inr ''1''\<rparr>]"
  have c: "yCrumb ?w = ''abc''" "sent ?w = []" "yCrumb ?w' = []" by (simp_all add: stub_world_def)
  have t: "Type yahoo = YFinBackend" "HTTPClient yahoo = 0" by (simp_all add: yahoo_def)
  have g: "fst (getYahooCrumb stub_NewRequest (HTTPClient yahoo) (log_request quote_request ?w')) = Inr ''abc''"
    by (simp add: getYahooCrumb_def client_Do_def stub_world_def stub_NewRequest_def yahoo_def
          log_request_def logf_def)
  then obtain w1 where g': "getYahooCrumb stub_NewRequest (HTTPClient yahoo) (log_request quote_request ?w') = (Inr ''abc'', w1)"
    by (cases "getYahooCrumb stub_NewRequest (HTTPClient yahoo) (log_request quote_request ?w')") auto
  have fresh: "yCrumb (snd (snd (snd (Do stub_NewRequest stub_Unmarshal yahoo quote_request (Some 0) ?w')))) = ''abc''"
    by (rule Do_handshake_ok(1) [OF t(1) c(3) g'])
  show ?thesis
    using Do_reuses_cached_crumb [of ?w stub_NewRequest stub_Unmarshal
        "[(yahoo, quote_request, Some 0), (yahoo, quote_request, None)]" yahoo quote_request "Some 0"]
      Do_reuses_cached_crumb [of ?w' stub_NewRequest stub_Unmarshal "[]" yahoo quote_request "Some 0"]
      fresh
    by (simp add: c t)
qed

lemma Do_request_cached:
  assumes "yCrumb w \<noteq> []"
  shows "fst (snd (snd (Do nr um s req v w))) = (if Type s = YFinBackend then with_crumb (yCrumb w) req else req)"
proof -
  have ne: "yCrumb (log_request req w) \<noteq> []" using assms by simp
  from Do_after_authorize(3) [OF authorize_cached [OF ne, of nr s req], of um v] show ?thesis by simp
qed

lemma dropped_pairs:
  "RawQuery (ReqURL (with_crumb ''abc''
      (quote_request\<lparr>ReqURL := (ReqURL quote_request)\<lparr>RawQuery := ''symbols=AAPL&fields=100%''\<rparr>\<rparr>)))
     = ''crumb=abc&symbols=AAPL''"
  "RawQuery (ReqURL (with_crumb ''abc''
      (quote_request\<lparr>ReqURL := (ReqURL quote_request)\<lparr>RawQuery := ''symbols=AAPL;region=US''\<rparr>\<rparr>)))
     = ''crumb=abc''"
  by code_simp+

text \<open>
  A pair with a malformed escape and a pair with a semicolon are present on the request
  URL and absent from the query that \<^verbatim>\<open>Do\<close> sends: \<^verbatim>\<open>fields=100%\<close> is lost in
  the first request, \<^verbatim>\<open>symbols=AAPL;region=US\<close> in the second.
\<close>

theorem Do_crumb_drops_counterexample:
  "RawQuery (ReqURL (fst (snd (snd (Do stub_NewRequest stub_Unmarshal yahoo
      (quote_request\<lparr>ReqURL := (ReqURL quote_request)\<lparr>RawQuery := ''symbols=AAPL&fields=100%''\<rparr>\<rparr>)
      (Some 0) (stub_world ''abc'' [Inr \<lparr>RespStatusCode = 200, RespBody = Inr ''1''\<rparr>]))))))
     = ''crumb=abc&symbols=AAPL''
   \<and> RawQuery (ReqURL (fst (snd (snd (Do stub_NewRequest stub_Unmarshal yahoo
      (quote_request\<lparr>ReqURL := (ReqURL quote_request)\<lparr>RawQuery := ''symbols=AAPL;region=US''\<rparr>\<rparr>)
      (Some 0) (stub_world ''abc'' [Inr \<lparr>RespStatusCode = 200, RespBody = Inr ''1''\<rparr>]))))))
     = ''crumb=abc''"
proof -
  let ?w = "stub_world ''abc'' [Inr \<lparr>RespStatusCode = 200, RespBody = Inr ''1''\<rparr>]"
  have c: "yCrumb ?w \<noteq> []" "yCrumb ?w = ''abc''" by (simp_all add: stub_world_def)
  have t: "Type yahoo = YFinBackend" by (simp add: yahoo_def)
  show ?thesis
    by (simp only: Do_request_cached [OF c(1)] t c(2) HOL.simp_thms if_True dropped_pairs)
qed

text \<open>
  C9, amended. When \<^verbatim>\<open>Do\<close> adds the crumb for the yahoo backend (that is, unless the
  handshake failed), the raw query it sends is the canonical encoding of the values that
  \<^verbatim>\<open>URL.Query()\<close> parses from the original query with one \<^verbatim>\<open>crumb\<close> value added:
  read back, it has under every key the parsed values of the original in their order,
  followed under the key \<^verbatim>\<open>crumb\<close> by the cached token. The parsed values are those of
  the pieces between \<^verbatim>\<open>&\<close> that are not empty, hold no semicolon and unescape in key
  and value; every other piece of the original query is dropped. Host, path, method,
  headers and context of the request are unchanged.
\<close>

theorem Do_crumb_query:
  assumes "Type s = YFinBackend"
    and "Do nr um s req v w = (err, v', req', w')"
    and "\<forall>e. err \<noteq> Some (WrapError ''get yahoo crumb err: '' e)"
  shows "(\<forall>key. values_of (Query (ReqURL req')) key
            = values_of (Query (ReqURL req)) key @ (if key = ''crumb'' then [yCrumb w'] else []))
       \<and> (\<forall>key. values_of (Query (ReqURL req)) key
            = map snd (filter (\<lambda>kv. fst kv = key) (List.map_filter pair_of (split_amp (RawQuery (ReqURL req))))))
       \<and> join_amp (split_amp (RawQuery (ReqURL req))) = RawQuery (ReqURL req)
       \<and> RawQuery (ReqURL req') = Encode (Add ''crumb'' (yCrumb w') (Query (ReqURL req)))
       \<and> Host (ReqURL req') = Host (ReqURL req) \<and> Path (ReqURL req') = Path (ReqURL req)
       \<and> Method req' = Method req \<and> Header req' = Header req \<and> Ctx req' = Ctx req
       \<and> last (sent w') = (HTTPClient s, req')"
proof (cases "authorize nr s req (log_request req w)")
  case (Inl ew)
  obtain e w1 where "ew = (e, w1)" by (cases ew)
  with Inl authorize_error [of nr s req "log_request req w" e w1] Do_authorize_failed [of nr s req w e w1 um v]
    assms show ?thesis by auto
next
  case (Inr rw)
  obtain r w1 where rw: "rw = (r, w1)" by (cases rw)
  with Inr have a: "authorize nr s req (log_request req w) = Inr (r, w1)" by simp
  have r: "r = with_crumb (yCrumb w1) req"
    using a assms(1)
    by (auto simp: authorize_def with_crumb_def split: if_splits sum.splits prod.splits)
  have "req' = r" using Do_after_authorize(3) [OF a, of um v] assms(2) by simp
  moreover have "yCrumb w' = yCrumb w1" "sent w' = sent w1 @ [(HTTPClient s, r)]"
    using Do_world(1,2) [OF a, of um v] assms(2) by simp_all
  ultimately show ?thesis
    using r by (simp add: Query_with_crumb Query_pieces [symmetric] join_split_amp) (simp add: with_crumb_def)
qed

lemma quote_request_values:
  "values_of (Query (ReqURL quote_request)) ''symbols'' = [''AAPL'']"
  "values_of (Query (ReqURL quote_request)) ''crumb'' = []"
  by code_simp+

lemma sample_encode:
  "RawQuery (ReqURL (with_crumb ''abc'' quote_request)) = ''crumb=abc&symbols=AAPL''"
  by code_simp

theorem Do_crumb_query_witness:
  "values_of (Query (ReqURL (fst (snd (snd (Do stub_NewRequest stub_Unmarshal yahoo quote_request (Some 0)
      (stub_world ''abc'' [Inr \<lparr>RespStatusCode = 200, RespBody = Inr ''1''\<rparr>]))))))) ''symbols'' = [''AAPL'']
   \<and> values_of (Query (ReqURL (fst (snd (snd (Do stub_NewRequest stub_Unmarshal yahoo quote_request (Some 0)
      (stub_world ''abc'' [Inr \<lparr>RespStatusCode = 200, RespBody = Inr ''1''\<rparr>]))))))) ''crumb'' = [''abc'']
   \<and> RawQuery (ReqURL (fst (snd (snd (Do stub_NewRequest stub_Unmarshal yahoo quote_request (Some 0)
      (stub_world ''abc'' [Inr \<lparr>RespStatusCode = 200, RespBody = Inr ''1''\<rparr>]))))))
       = ''crumb=abc&symbols=AAPL''"
proof -
  let ?w = "stub_world ''abc'' [Inr \<lparr>RespStatusCode = 200, RespBody = Inr ''1''\<rparr>]"
  obtain err v' req' w' where d: "Do stub_NewRequest stub_Unmarshal yahoo quote_request (Some 0) ?w = (err, v', req', w')"
    by (cases "Do stub_NewRequest stub_Unmarshal yahoo quote_request (Some 0) ?w") auto
  have t: "Type yahoo = YFinBackend" by (simp add: yahoo_def)
  have c: "yCrumb ?w \<noteq> []" "yCrumb ?w = ''abc''" by (simp_all add: stub_world_def)
  have "fst (Do stub_NewRequest stub_Unmarshal yahoo quote_request (Some 0) ?w) = None"
    by (simp add: Do_def authorize_def exchange_def client_Do_def log_request_def logf_def
        stub_world_def yahoo_def stub_Unmarshal_def)
  with d have e: "\<forall>e. err \<noteq> Some (WrapError ''get yahoo crumb err: '' e)" by simp
  have y: "yCrumb w' = ''abc''"
    using Do_cached(1) [OF c(1), of stub_NewRequest stub_Unmarshal yahoo quote_request "Some 0"] d c(2) by simp
  have enc: "Encode (Add ''crumb'' ''abc'' (Query (ReqURL quote_request))) = ''crumb=abc&symbols=AAPL''"
    by code_simp
  note q = Do_crumb_query [OF t d e]
  from q have v: "values_of (Query (ReqURL req')) key
      = values_of (Query (ReqURL quote_request)) key @ (if key = ''crumb'' then [yCrumb w'] else [])" for key
    by blast
  from q have r: "RawQuery (ReqURL req') = Encode (Add ''crumb'' (yCrumb w') (Query (ReqURL quote_request)))"
    by blast
  from v [of "''symbols''"] v [of "''crumb''"] r d y enc show ?thesis
    by (simp add: quote_request_values)
qed

subsection \<open>Concurrent GetBackend\<close>

lemma GetBackend_two_steps:
  "GetBackend backend g =
     (case read_entry backend g of
        Done r \<Rightarrow> (r, g)
      | Missed \<Rightarrow> (case store_new backend g of (p, g') \<Rightarrow> (Some p, g'))
      | Start \<Rightarrow> (None, g))"
  by (simp add: GetBackend_def read_entry_def store_new_def split: option.splits prod.splits)

lemma race_path:
  "(step YFinBackend)\<^sup>*\<^sup>*
     (\<lparr>YFin = None, Bats = None, httpClient = 0, heap = []\<rparr>, Start, Start)
     (\<lparr>YFin = Some (ConfigRef 1), Bats = None, httpClient = 0,
       heap = [\<lparr>Type = YFinBackend, URL = yFinURL, HTTPClient = 0\<rparr>,
               \<lparr>Type = YFinBackend, URL = yFinURL, HTTPClient = 0\<rparr>]\<rparr>,
      Done (Some (ConfigRef 0)), Done (Some (ConfigRef 1)))"
proof -
  let ?c = "\<lparr>Type = YFinBackend, URL = yFinURL, HTTPClient = 0\<rparr>"
  let ?g0 = "\<lparr>YFin = None, Bats = None, httpClient = 0, heap = []\<rparr>"
  let ?g1 = "\<lparr>YFin = Some (ConfigRef 0), Bats = None, httpClient = 0, heap = [?c]\<rparr>"
  let ?g2 = "\<lparr>YFin = Some (ConfigRef 1), Bats = None, httpClient = 0, heap = [?c, ?c]\<rparr>"
  have 1: "step YFinBackend (?g0, Start, Start) (?g0, Missed, Start)"
    by (rule step.first) (simp add: read_entry_def)
  have 2: "step YFinBackend (?g0, Missed, Start) (?g0, Missed, Missed)"
    by (rule step.second) (simp add: read_entry_def)
  have 3: "step YFinBackend (?g0, Missed, Missed) (?g1, Done (Some (ConfigRef 0)), Missed)"
    by (rule step.first) (simp add: store_new_def new_config_def)
  have 4: "step YFinBackend (?g1, Done (Some (ConfigRef 0)), Missed) (?g2, Done (Some (ConfigRef 0)), Done (Some (ConfigRef 1)))"
    by (rule step.second) (simp add: store_new_def new_config_def)
  from 1 2 3 4 show ?thesis by (meson rtranclp.rtrancl_into_rtrancl rtranclp.rtrancl_refl)
qed

text \<open>
  Two callers resolve \<^verbatim>\<open>YFinBackend\<close> on an empty registry. Both miss under the read
  lock; each then takes the write lock in turn and stores a configuration of its own:
  two objects are constructed, the callers hold different ones, and the second store
  happens although the entry is already set, since the write-locked section does not read
  it.
\<close>

theorem GetBackend_race_counterexample:
  "(step YFinBackend)\<^sup>*\<^sup>*
     (\<lparr>YFin = None, Bats = None, httpClient = 0, heap = []\<rparr>, Start, Start)
     (\<lparr>YFin = Some (ConfigRef 1), Bats = None, httpClient = 0,
       heap = [\<lparr>Type = YFinBackend, URL = yFinURL, HTTPClient = 0\<rparr>,
               \<lparr>Type = YFinBackend, URL = yFinURL, HTTPClient = 0\<rparr>]\<rparr>,
      Done (Some (ConfigRef 0)), Done (Some (ConfigRef 1)))
   \<and> store_new YFinBackend
        \<lparr>YFin = Some (ConfigRef 0), Bats = None, httpClient = 0,
          heap = [\<lparr>Type = YFinBackend, URL = yFinURL, HTTPClient = 0\<rparr>]\<rparr>
      = (ConfigRef 1,
         \<lparr>YFin = Some (ConfigRef 1), Bats = None, httpClient = 0,
           heap = [\<lparr>Type = YFinBackend, URL = yFinURL, HTTPClient = 0\<rparr>,
                   \<lparr>Type = YFinBackend, URL = yFinURL, HTTPClient = 0\<rparr>]\<rparr>)"
  using race_path by (simp add: store_new_def new_config_def)

lemma thread_can_step:
  "p = Start \<or> p = Missed \<Longrightarrow> \<exists>p' g'. thread_step backend p g = Some (p', g')"
  by (cases p) (auto split: prod.splits)

lemma race_inv_init:
  assumes "entry backend g = None"
  shows "race_inv backend g (g, Start, Start)"
  using assms by (auto simp: race_inv_def reg_inv_def pc_ok_def)

lemma store_new_effect:
  assumes "backend = YFinBackend \<or> backend = BATSBackend"
    and "store_new backend g = (p, g')"
  shows "p = ConfigRef (length (heap g))" and "heap g' = heap g @ [default_config backend g]"
    and "httpClient g' = httpClient g" and "entry backend g' = Some p"
  using assms
  by (auto simp: store_new_def new_config_def default_config_def entry_def YFinBackend_def BATSBackend_def)

lemma read_entry_entry:
  assumes "backend = YFinBackend \<or> backend = BATSBackend"
  shows "read_entry backend g = (case entry backend g of Some r \<Rightarrow> Done (Some r) | None \<Rightarrow> Missed)"
  using assms by (auto simp: read_entry_def entry_def YFinBackend_def BATSBackend_def)

lemma thread_step_inv:
  assumes b: "backend = YFinBackend \<or> backend = BATSBackend"
    and r: "reg_inv backend g g1"
    and ok: "pc_ok g g1 p"
    and st: "thread_step backend p g1 = Some (p', g1')"
  shows "reg_inv backend g g1'" and "pc_ok g g1' p'" and "pc_ok g g1 q \<Longrightarrow> pc_ok g g1' q"
proof -
  have "reg_inv backend g g1' \<and> pc_ok g g1' p' \<and> length (heap g1) \<le> length (heap g1')"
  proof (cases p)
    case Start
    with st have e: "g1' = g1" "p' = read_entry backend g1" by auto
    show ?thesis
    proof (cases "entry backend g1")
      case None
      with e r show ?thesis by (simp add: read_entry_entry [OF b] pc_ok_def)
    next
      case (Some x)
      with r have "fresh_ref g g1 (Some x)" by (simp add: reg_inv_def)
      with e r Some show ?thesis by (simp add: read_entry_entry [OF b] pc_ok_def)
    qed
  next
    case Missed
    obtain x where sn: "store_new backend g1 = (x, g1')" and p': "p' = Done (Some x)"
      using st Missed by (auto split: prod.splits)
    note eff = store_new_effect [OF b sn]
    from r have h: "httpClient g1 = httpClient g" "length (heap g) \<le> length (heap g1)"
      and old: "\<And>i. length (heap g) \<le> i \<Longrightarrow> i < length (heap g1) \<Longrightarrow> heap g1 ! i = default_config backend g"
      by (simp_all add: reg_inv_def)
    have dc: "default_config backend g1 = default_config backend g"
      using h(1) by (simp add: default_config_def)
    have fr: "fresh_ref g g1' (Some x)"
      using eff(1,2) h(2) by (simp add: fresh_ref_def)
    have elems: "heap g1' ! i = default_config backend g"
      if "length (heap g) \<le> i" and "i < length (heap g1')" for i
    proof (cases "i < length (heap g1)")
      case True
      with that old show ?thesis by (simp add: eff(2) nth_append)
    next
      case False
      with that have "i = length (heap g1)" by (simp add: eff(2))
      then show ?thesis by (simp add: eff(2) dc)
    qed
    have "reg_inv backend g g1'"
      using eff(3,4) h fr elems by (simp add: reg_inv_def eff(2))
    with fr p' show ?thesis by (simp add: pc_ok_def eff(2))
  next
    case (Done x)
    with st show ?thesis by simp
  qed
  then show "reg_inv backend g g1'" and "pc_ok g g1' p'" and "pc_ok g g1 q \<Longrightarrow> pc_ok g g1' q"
    by (auto simp: pc_ok_def fresh_ref_def split: pc.splits)
qed

lemma race_inv_step:
  assumes b: "backend = YFinBackend \<or> backend = BATSBackend"
    and inv: "race_inv backend g st"
    and st: "step backend st st'"
  shows "race_inv backend g st'"
  using st
proof cases
  case (first p1 g1 p1' g1' p2)
  with inv have "reg_inv backend g g1" "pc_ok g g1 p1" "pc_ok g g1 p2" by (simp_all add: race_inv_def)
  with thread_step_inv [OF b this(1,2) first(3)] first show ?thesis by (simp add: race_inv_def)
next
  case (second p2 g1 p2' g1' p1)
  with inv have "reg_inv backend g g1" "pc_ok g g1 p2" "pc_ok g g1 p1" by (simp_all add: race_inv_def)
  with thread_step_inv [OF b this(1,2) second(3)] second show ?thesis by (simp add: race_inv_def)
qed

lemma race_inv_reachable:
  assumes "backend = YFinBackend \<or> backend = BATSBackend"
    and "entry backend g = None"
    and "(step backend)\<^sup>*\<^sup>* (g, Start, Start) st"
  shows "race_inv backend g st"
  using assms(3)
proof (induction rule: rtranclp_induct)
  case base
  then show ?case by (rule race_inv_init [OF assms(2)])
next
  case (step y z)
  then show ?case using race_inv_step [OF assms(1)] by blast
qed


text \<open>
  C7, amended. \<^verbatim>\<open>GetBackend\<close> does not re-check the entry under the write lock, so two
  concurrent resolves of an identifier that is not configured may each construct and store
  a configuration. In every interleaving, when both have returned, each holds a
  configuration whose fields are the identifier, its base URL and the shared HTTP client:
  the two have identical field values.
\<close>

theorem GetBackend_concurrent:
  assumes "backend = YFinBackend \<or> backend = BATSBackend"
    and "entry backend g = None"
    and "(step backend)\<^sup>*\<^sup>* (g, Start, Start) (g', Done r1, Done r2)"
  shows "\<exists>p1 p2. r1 = Some p1 \<and> r2 = Some p2
           \<and> deref g' p1 = Some (default_config backend g)
           \<and> deref g' p2 = Some (default_config backend g)"
proof -
  from race_inv_reachable [OF assms]
  have r: "reg_inv backend g g'" and f: "fresh_ref g g' r1" "fresh_ref g g' r2"
    by (simp_all add: race_inv_def pc_ok_def)
  have "\<exists>p. r = Some p \<and> deref g' p = Some (default_config backend g)" if "fresh_ref g g' r" for r
    using that r by (auto simp: fresh_ref_def reg_inv_def deref_def)
  with f show ?thesis by blast
qed

theorem GetBackend_concurrent_witness:
  "deref \<lparr>YFin = Some (ConfigRef 1), Bats = None, httpClient = 0,
           heap = [\<lparr>Type = YFinBackend, URL = yFinURL, HTTPClient = 0\<rparr>,
                   \<lparr>Type = YFinBackend, URL = yFinURL, HTTPClient = 0\<rparr>]\<rparr> (ConfigRef 0)
     = Some \<lparr>Type = YFinBackend, URL = yFinURL, HTTPClient = 0\<rparr>
   \<and> deref \<lparr>YFin = Some (ConfigRef 1), Bats = None, httpClient = 0,
           heap = [\<lparr>Type = YFinBackend, URL = yFinURL, HTTPClient = 0\<rparr>,
                   \<lparr>Type = YFinBackend, URL = yFinURL, HTTPClient = 0\<rparr>]\<rparr> (ConfigRef 1)
     = Some \<lparr>Type = YFinBackend, URL = yFinURL, HTTPClient = 0\<rparr>"
proof -
  have e: "entry YFinBackend \<lparr>YFin = None, Bats = None, httpClient = 0, heap = []\<rparr> = None"
    by (simp add: entry_def)
  have b: "YFinBackend = YFinBackend \<or> YFinBackend = BATSBackend" by simp
  show ?thesis
    using GetBackend_concurrent [OF b e race_path]
    by (simp add: default_config_def)
qed

end
